theory Spec2Isabelle
  imports Complex_Main
begin

section \<open>Device arrays\<close>

text \<open>
  A device array is a list of cells. The sources work on \<^verbatim>\<open>float\<close> (and, in the
  templates, \<^verbatim>\<open>math_t\<close>) values; here a cell holds a real number, so every
  arithmetic step is exact: rounding, overflow to infinity and NaN are outside this
  development, and a division by zero, which yields an infinity on the device, yields
  \<open>0\<close> in HOL. A statement that depends on a divisor being nonzero says so.

  \<open>map_cells off len g\<close> applies \<open>g\<close> to the \<open>len\<close> cells starting at \<open>off\<close>:
  the element-wise primitives of the sources (\<^verbatim>\<open>unaryOp\<close>, \<^verbatim>\<open>scalarMultiply\<close>,
  \<^verbatim>\<open>cudaMemsetAsync\<close>, \<^verbatim>\<open>thrust::fill\<close>) are all of this shape. The sources
  never check the range; a range that leaves the array is undefined behaviour there, and
  here the cells outside the array are simply not written, so an array never changes its
  length.
\<close>

definition map_cells :: "nat \<Rightarrow> nat \<Rightarrow> (real \<Rightarrow> real) \<Rightarrow> real list \<Rightarrow> real list" where
  "map_cells off len g xs = take off xs @ map g (take len (drop off xs)) @ drop (off + len) xs"

definition write_cells :: "nat \<Rightarrow> real list \<Rightarrow> real list \<Rightarrow> real list" where
  "write_cells off vs xs =
     take off xs @ take (length xs - off) vs @ drop (off + length vs) xs"

text \<open>\<^verbatim>\<open>LinAlg::unaryOp(out, in, len, op)\<close>; every call of the sources has \<^verbatim>\<open>out == in\<close>.\<close>

definition unaryOp :: "(real \<Rightarrow> real) \<Rightarrow> real list \<Rightarrow> nat \<Rightarrow> real list" where
  "unaryOp op xs len = map_cells 0 len op xs"

definition descending :: "real list \<Rightarrow> bool" where
  "descending xs = sorted_wrt (\<lambda>a b. b \<le> a) xs"

section \<open>eigh (tsvd/sparse\_svd/eigh.h)\<close>

text \<open>
  Modelled from the spec: \<^verbatim>\<open>MLCommon::Matrix::colReverse\<close> (matrix/matrix.h) is not
  among the sources. The call sites say what it does: \<^verbatim>\<open>// Reverse W, V since syevd
  provides smallest eigenvalues first\<close>, on a column-major matrix of \<open>n_rows\<close> rows and
  \<open>n_cols\<close> columns: column \<open>c\<close> of the result is column \<open>n_cols - 1 - c\<close> of the
  argument.
\<close>

definition colReverse :: "real list \<Rightarrow> nat \<Rightarrow> nat \<Rightarrow> real list" where
  "colReverse inout n_rows n_cols =
     write_cells 0
       (map (\<lambda>i. inout ! ((n_cols - 1 - i div n_rows) * n_rows + i mod n_rows))
          [0 ..< n_rows * n_cols])
       inout"

text \<open>
  The solver \<^verbatim>\<open>cusolverDnsyevd\<close> is a library outside the repository: it is a
  parameter \<open>syevd p V W\<close>, returning the new \<open>(W, V)\<close>, or \<open>None\<close> when its
  status is not success (\<^verbatim>\<open>CUSOLVER_CHECK\<close> then aborts the call). The workspace and
  \<^verbatim>\<open>info\<close> arguments only serve the solver.
\<close>

type_synonym solver = "int \<Rightarrow> real list \<Rightarrow> real list \<Rightarrow> (real list \<times> real list) option"

definition eigh :: "solver \<Rightarrow> real list \<Rightarrow> real list \<Rightarrow> int \<Rightarrow> int \<Rightarrow> bool
    \<Rightarrow> (real list \<times> real list) option" where
  "eigh syevd W V p k singular_values =
     (case syevd p V W of
        None \<Rightarrow> None
      | Some (W1, V1) \<Rightarrow>
          let W2 = colReverse W1 1 (nat p);
              V2 = colReverse V1 (nat p) (nat p);
              W3 = (if singular_values
                    then unaryOp (\<lambda>x. if x > 0 then sqrt x else 0) W2 (nat k)
                    else W2)
          in Some (W3, V2))"

section \<open>pcaFit (pca/pca.h)\<close>

text \<open>
  \<^verbatim>\<open>paramsPCA\<close> is declared outside the sources; the fields \<^verbatim>\<open>pcaFit\<close> reads are
  the three \<^verbatim>\<open>int\<close> dimensions. The numeric primitives (\<^verbatim>\<open>Stats::mean\<close>,
  \<^verbatim>\<open>Stats::cov\<close>, \<^verbatim>\<open>calEig\<close>, \<^verbatim>\<open>Matrix::truncZeroOrigin\<close>, \<^verbatim>\<open>Matrix::ratio\<close>,
  \<^verbatim>\<open>Matrix::seqRoot\<close>) are parameters, each called with the dimensions the source
  passes.
\<close>

record paramsPCA =
  n_rows :: int
  n_cols :: int
  n_components :: int

record prims =
  Stats_mean :: "real list \<Rightarrow> int \<Rightarrow> int \<Rightarrow> real list"
  Stats_cov :: "real list \<Rightarrow> real list \<Rightarrow> real list \<Rightarrow> int \<Rightarrow> int \<Rightarrow> real list"
  calEig :: "real list \<Rightarrow> paramsPCA \<Rightarrow> real list \<times> real list"
  truncZeroOrigin :: "real list \<Rightarrow> int \<Rightarrow> int \<Rightarrow> int \<Rightarrow> real list"
  ratio :: "real list \<Rightarrow> int \<Rightarrow> real list"
  seqRoot :: "real list \<Rightarrow> real \<Rightarrow> int \<Rightarrow> real list"

record pca_out =
  components :: "real list"
  explained_var :: "real list"
  explained_var_ratio :: "real list"
  singular_vals :: "real list"
  mu :: "real list"
  prms_used :: paramsPCA

definition truncCompExpVars :: "prims \<Rightarrow> real list \<Rightarrow> paramsPCA
    \<Rightarrow> real list \<times> real list \<times> real list" where
  "truncCompExpVars P inp prms =
     (let (components_all, explained_var_all) = calEig P inp prms;
          comps = truncZeroOrigin P components_all (n_cols prms) (n_components prms) (n_cols prms);
          explained_var_ratio_all = ratio P explained_var_all (n_cols prms);
          ev = truncZeroOrigin P explained_var_all (n_cols prms) (n_components prms) 1;
          evr = truncZeroOrigin P explained_var_ratio_all (n_cols prms) (n_components prms) 1
      in (comps, ev, evr))"

text \<open>
  Modelled from the spec: the \<^verbatim>\<open>ASSERT\<close> macro (cuda\_utils.h) is not among the
  sources. Section 7 of the specification: a parameter-contract violation fails fast
  with a descriptive, non-recoverable abort signal. A failed check ends the call with
  its message, \<open>Inl msg\<close>, before anything is computed.

  \<^verbatim>\<open>math_t\<close> is \<^verbatim>\<open>float\<close> or \<^verbatim>\<open>double\<close>, the two cases the source's comment
  names, so the two \<^verbatim>\<open>sizeof\<close> tests are decided: the sum is \<open>n_rows\<close> times the mean
  and the closing \<^verbatim>\<open>meanAdd\<close> does not run. \<open>prms\<close> is passed by value; the record
  the computation ran with is returned as \<open>prms_used\<close>.
\<close>

definition pcaFit :: "prims \<Rightarrow> real list \<Rightarrow> paramsPCA \<Rightarrow> string + pca_out" where
  "pcaFit P inp prms0 =
     (if \<not> n_cols prms0 > 1 then
        Inl ''Parameter n_cols: number of columns cannot be less than two''
      else if \<not> n_rows prms0 > 1 then
        Inl ''Parameter n_rows: number of rows cannot be less than two''
      else if \<not> n_components prms0 > 0 then
        Inl ''Parameter n_components: number of components cannot be less than one''
      else
        let prms = (if n_components prms0 > n_cols prms0
                    then prms0\<lparr>n_components := n_cols prms0\<rparr> else prms0);
            mu' = Stats_mean P inp (n_cols prms) (n_rows prms);
            sum = unaryOp (\<lambda>x. x * real_of_int (n_rows prms)) mu' (nat (n_cols prms));
            cov = Stats_cov P inp mu' sum (n_cols prms) (n_rows prms);
            (comps, ev, evr) = truncCompExpVars P cov prms;
            scalar = real_of_int (n_rows prms - 1);
            sv = seqRoot P ev scalar (n_components prms)
        in Inr \<lparr>components = comps, explained_var = ev, explained_var_ratio = evr,
                 singular_vals = sv, mu = mu', prms_used = prms\<rparr>)"

section \<open>Barnes\_Hut (tsne/barnes\_hut.h)\<close>

subsection \<open>Arguments, device and memory\<close>

text \<open>
  The scalar arguments of \<^verbatim>\<open>Barnes_Hut\<close>, under the names of the source (\<open>npts\<close>
  is the argument \<^verbatim>\<open>n\<close>). \<open>defaults\<close> holds the default arguments of the signature.
\<close>

record tsne_params =
  NNZ :: int
  npts :: int
  theta :: real
  epssq :: real
  early_exaggeration :: real
  exaggeration_iter :: int
  min_gain :: real
  pre_learning_rate :: real
  post_learning_rate :: real
  max_iter :: int
  min_grad_norm :: real
  pre_momentum :: real
  post_momentum :: real
  random_state :: int
  verbose :: bool
  pca_intialization :: bool
  workspace_size :: int

definition defaults :: "int \<Rightarrow> int \<Rightarrow> tsne_params" where
  "defaults nnz n =
     \<lparr>NNZ = nnz, npts = n, theta = 0.5, epssq = 0.0025, early_exaggeration = 12,
      exaggeration_iter = 250, min_gain = 0.01, pre_learning_rate = 200,
      post_learning_rate = 500, max_iter = 1000, min_grad_norm = 1 / 10000000,
      pre_momentum = 0.5, post_momentum = 0.8, random_state = - 1, verbose = True,
      pca_intialization = False, workspace_size = 0\<rparr>"

text \<open>
  Every array the function touches: the caller's \<^verbatim>\<open>VAL\<close>, \<^verbatim>\<open>COL\<close>, \<^verbatim>\<open>ROW\<close>
  and \<^verbatim>\<open>Y\<close>, and one name per \<^verbatim>\<open>device_buffer\<close> of the source. The memory is a
  store from these names to their cells; a pointer is an array and an offset in cells.
  The pointers the source derives from another array (\<^verbatim>\<open>attr_forces = Y\<close>,
  \<^verbatim>\<open>startl\<close> and \<^verbatim>\<open>countl\<close> inside \<^verbatim>\<open>rep_forces\<close>, \<^verbatim>\<open>maxxl\<close> ... \<^verbatim>\<open>minyl\<close>
  inside \<^verbatim>\<open>sortl\<close>, \<^verbatim>\<open>norm\<close>, \<^verbatim>\<open>norm_add1\<close> and \<^verbatim>\<open>sums\<close> inside
  \<^verbatim>\<open>childl\<close>, \<^verbatim>\<open>radiusd_squared = radiusd\<close>) point into that array here too, so
  a write through one name is seen through the other. A cell holds a number: an
  \<^verbatim>\<open>int\<close> array holds the integers written to it, and the bit pattern an \<^verbatim>\<open>int\<close>
  shares with a \<^verbatim>\<open>float\<close> is not represented. An offset is a natural number: the
  source forms a negative one only for a negative \<^verbatim>\<open>n\<close> or a device that reports
  no multiprocessor, where its behaviour is undefined.
\<close>

datatype buf = B_VAL | B_COL | B_ROW | B_Y
  | B_limiter | B_maxdepthd | B_bottomd | B_radiusd | B_rep_forces | B_childl | B_massl
  | B_sortl | B_maxxl | B_maxyl | B_minxl | B_minyl | B_Z_norm | B_norm_add1 | B_norm
  | B_sums | B_gains_bh | B_old_forces | B_YY

type_synonym store = "buf \<Rightarrow> real list"
type_synonym ptr = "buf \<times> nat"

text \<open>
  What the call takes from its surroundings: the multiprocessor count
  (\<^verbatim>\<open>getMultiProcessorCount()\<close>), the constant \<^verbatim>\<open>FACTOR1\<close> of bh\_kernels.h, the
  contents a fresh \<^verbatim>\<open>device_buffer\<close> happens to hold (nothing initialises it), the
  generator behind \<^verbatim>\<open>random_vector\<close> (\<open>rng seed lo hi i\<close> is its \<open>i\<close>-th variate)
  and the entropy it draws on when no seed is given.
\<close>

record device =
  blocks :: int
  FACTOR1 :: int
  uninit :: "buf \<Rightarrow> nat \<Rightarrow> real"
  rng :: "int \<Rightarrow> real \<Rightarrow> real \<Rightarrow> nat \<Rightarrow> real"
  entropy :: int

text \<open>
  The kernels of bh\_kernels.h are not among the sources. A kernel is a parameter: a
  function of its pointer arguments, its \<^verbatim>\<open>int\<close> arguments, its \<^verbatim>\<open>float\<close>
  arguments and the memory (section 9 of the specification: each phase is a pure
  transform of the previous phase's arrays; the launch configuration is a tuning knob
  outside the logical design, and is left out). \<open>launch\<close> gives it the frame of a
  device kernel: it sees the arrays it holds a pointer into and no other, it cannot
  resize an array, and it leaves the edge list \<^verbatim>\<open>VAL\<close>, \<^verbatim>\<open>COL\<close>, \<^verbatim>\<open>ROW\<close> as it
  is (section 3: the edge set is read-only except for the one rescaling, which
  \<^verbatim>\<open>Barnes_Hut\<close> does itself).
\<close>

type_synonym kernel = "ptr list \<Rightarrow> int list \<Rightarrow> real list \<Rightarrow> store \<Rightarrow> store"

record kernels =
  BoundingBoxKernel :: kernel
  ClearKernel1 :: kernel
  TreeBuildingKernel :: kernel
  ClearKernel2 :: kernel
  SummarizationKernel :: kernel
  SortKernel :: kernel
  RepulsionKernel :: kernel
  get_norm :: kernel
  attractive_kernel_bh :: kernel
  IntegrationKernel :: kernel
  mean_centre :: kernel

definition read_only :: "buf set" where
  "read_only = {B_VAL, B_COL, B_ROW}"

definition launch :: "kernel \<Rightarrow> ptr list \<Rightarrow> int list \<Rightarrow> real list \<Rightarrow> store \<Rightarrow> store" where
  "launch k ptrs ints floats st =
     (let seen = set (map fst ptrs);
          out = k ptrs ints floats (\<lambda>b. if b \<in> seen then st b else [])
      in (\<lambda>b. if b \<in> seen \<and> b \<notin> read_only then write_cells 0 (out b) (st b) else st b))"

definition cells :: "ptr \<Rightarrow> nat \<Rightarrow> store \<Rightarrow> real list" where
  "cells p len st = take len (drop (snd p) (st (fst p)))"

definition device_buffer :: "device \<Rightarrow> buf \<Rightarrow> int \<Rightarrow> store \<Rightarrow> store" where
  "device_buffer D b len st = st(b := map (uninit D b) [0 ..< nat len])"

definition fill :: "ptr \<Rightarrow> int \<Rightarrow> real \<Rightarrow> store \<Rightarrow> store" where
  "fill p len v st = st(fst p := map_cells (snd p) (nat len) (\<lambda>_. v) (st (fst p)))"

definition memset0 :: "ptr \<Rightarrow> int \<Rightarrow> store \<Rightarrow> store" where
  "memset0 p len st = fill p len 0 st"

definition unaryOp_at :: "ptr \<Rightarrow> int \<Rightarrow> (real \<Rightarrow> real) \<Rightarrow> store \<Rightarrow> store" where
  "unaryOp_at p len op st = st(fst p := map_cells (snd p) (nat len) op (st (fst p)))"

definition scalarMultiply :: "ptr \<Rightarrow> real \<Rightarrow> int \<Rightarrow> store \<Rightarrow> store" where
  "scalarMultiply p scalar len st = unaryOp_at p len (\<lambda>x. x * scalar) st"

definition copyAsync :: "ptr \<Rightarrow> ptr \<Rightarrow> int \<Rightarrow> store \<Rightarrow> store" where
  "copyAsync dst src len st =
     st(fst dst := write_cells (snd dst) (cells src (nat len) st) (st (fst dst)))"

text \<open>
  Modelled from the spec: \<^verbatim>\<open>random_vector\<close> (utils.h) is not among the sources.
  Section 4.8: a uniform small-magnitude random fill, reproducible given a seed; the
  parameter list of \<^verbatim>\<open>Barnes_Hut\<close>: \<^verbatim>\<open>-1\<close> for pure random initialisations,
  \<^verbatim>\<open>>= 0\<close> for reproducible outputs. A seed that is not negative is the generator's
  seed; otherwise the generator is seeded from the device's entropy.
\<close>

definition random_vector :: "device \<Rightarrow> ptr \<Rightarrow> real \<Rightarrow> real \<Rightarrow> int \<Rightarrow> int \<Rightarrow> store \<Rightarrow> store" where
  "random_vector D p minimum maximum len seed st =
     (let s = (if seed < 0 then entropy D else seed)
      in st(fst p := write_cells (snd p) (map (rng D s minimum maximum) [0 ..< nat len])
                        (st (fst p))))"

subsection \<open>Sizes and derived pointers\<close>

text \<open>
  \<^verbatim>\<open>int nnodes = n * 2; if (nnodes < 1024 * blocks) nnodes = 1024 * blocks;
  while ((nnodes & (32 - 1)) != 0) nnodes++; nnodes--;\<close>
  The integers are unbounded here: no statement below reaches the overflow of
  \<^verbatim>\<open>n * 2\<close>.
\<close>

function round_up32 :: "int \<Rightarrow> int" where
  "round_up32 nnodes = (if and nnodes (32 - 1) \<noteq> 0 then round_up32 (nnodes + 1) else nnodes)"
  by pat_completeness auto
termination
proof (relation "measure (\<lambda>nnodes. nat ((- nnodes) mod 32))")
  show "wf (measure (\<lambda>nnodes. nat ((- nnodes) mod 32)))"
    by simp
next
  fix nnodes :: int
  assume a: "and nnodes (32 - 1) \<noteq> 0"
  have "and nnodes (mask 5) = nnodes mod 2 ^ 5"
    by (simp only: take_bit_eq_mod flip: take_bit_eq_mask)
  then have "and nnodes (32 - 1) = nnodes mod 32"
    by (simp add: mask_eq_exp_minus_1)
  with a have "nnodes mod 32 \<noteq> 0"
    by simp
  then have "(- nnodes) mod 32 \<noteq> 0"
    by (simp add: mod_eq_0_iff_dvd)
  moreover have "0 \<le> (- nnodes) mod 32" and m32: "(- nnodes) mod 32 < 32"
    by simp_all
  ultimately have m0: "0 < (- nnodes) mod 32"
    by linarith
  have "(- (nnodes + 1)) mod 32 = ((- nnodes) mod 32 - 1) mod 32"
    by (simp add: mod_diff_left_eq)
  also have "\<dots> = (- nnodes) mod 32 - 1"
    using m0 m32 by (intro mod_pos_pos_trivial) simp_all
  finally have "(- (nnodes + 1)) mod 32 < (- nnodes) mod 32"
    by simp
  then show "(nnodes + 1, nnodes) \<in> measure (\<lambda>nnodes. nat ((- nnodes) mod 32))"
    by simp
qed

definition NNODES :: "device \<Rightarrow> tsne_params \<Rightarrow> int" where
  "NNODES D p =
     (let nnodes = npts p * 2;
          nnodes = (if nnodes < 1024 * blocks D then 1024 * blocks D else nnodes)
      in round_up32 nnodes - 1)"

definition N_float :: "tsne_params \<Rightarrow> real" where
  "N_float p = real_of_int (npts p)"

definition div_N :: "tsne_params \<Rightarrow> real" where
  "div_N p = 1 / N_float p"

text \<open>
  Pointers: \<open>base b\<close> is the start of array \<open>b\<close>, \<open>shift p k\<close> is \<^verbatim>\<open>p + k\<close>.
  \<^verbatim>\<open>sizeof(float) >= sizeof(int)\<close> holds on the device (both are 4), so
  \<^verbatim>\<open>startl\<close> and \<^verbatim>\<open>countl\<close> always lie in \<^verbatim>\<open>rep_forces\<close>. The other two overlays
  depend on the sizes; the tests are those of the source with both \<^verbatim>\<open>sizeof\<close>
  replaced by 4. In the branches that allocate separate buffers the source lets them go
  out of scope at the end of the block; here they stay allocated.
\<close>

definition base :: "buf \<Rightarrow> ptr" where
  "base b = (b, 0)"

definition shift :: "ptr \<Rightarrow> int \<Rightarrow> ptr" where
  "shift p k = (fst p, nat (int (snd p) + k))"

definition cell :: "ptr \<Rightarrow> store \<Rightarrow> real" where
  "cell p st = st (fst p) ! snd p"

definition write_at :: "ptr \<Rightarrow> real list \<Rightarrow> store \<Rightarrow> store" where
  "write_at p vs st = st(fst p := write_cells (snd p) vs (st (fst p)))"

definition attr_forces :: ptr where
  "attr_forces = base B_Y"

definition radiusd_squared :: ptr where
  "radiusd_squared = base B_radiusd"

definition startl :: ptr where
  "startl = base B_rep_forces"

definition countl :: "device \<Rightarrow> tsne_params \<Rightarrow> ptr" where
  "countl D p = shift startl (NNODES D p + 1)"

definition reductions_in_sortl :: "device \<Rightarrow> tsne_params \<Rightarrow> bool" where
  "reductions_in_sortl D p \<longleftrightarrow> 4 * blocks D * FACTOR1 D * 4 \<le> 4 * (NNODES D p + 1)"

definition maxxl :: "device \<Rightarrow> tsne_params \<Rightarrow> ptr" where
  "maxxl D p = (if reductions_in_sortl D p then shift (base B_sortl) (0 * blocks D * FACTOR1 D)
                else base B_maxxl)"

definition maxyl :: "device \<Rightarrow> tsne_params \<Rightarrow> ptr" where
  "maxyl D p = (if reductions_in_sortl D p then shift (base B_sortl) (1 * blocks D * FACTOR1 D)
                else base B_maxyl)"

definition minxl :: "device \<Rightarrow> tsne_params \<Rightarrow> ptr" where
  "minxl D p = (if reductions_in_sortl D p then shift (base B_sortl) (2 * blocks D * FACTOR1 D)
                else base B_minxl)"

definition minyl :: "device \<Rightarrow> tsne_params \<Rightarrow> ptr" where
  "minyl D p = (if reductions_in_sortl D p then shift (base B_sortl) (3 * blocks D * FACTOR1 D)
                else base B_minyl)"

definition norms_in_childl :: "device \<Rightarrow> tsne_params \<Rightarrow> bool" where
  "norms_in_childl D p \<longleftrightarrow> (NNODES D p + 1) * 4 * 4 \<ge> (npts p + npts p + 2) * 4"

definition norm_ptr :: "device \<Rightarrow> tsne_params \<Rightarrow> ptr" where
  "norm_ptr D p = (if norms_in_childl D p then base B_childl else base B_norm)"

definition norm_add1_ptr :: "device \<Rightarrow> tsne_params \<Rightarrow> ptr" where
  "norm_add1_ptr D p =
     (if norms_in_childl D p then shift (base B_childl) (npts p) else base B_norm_add1)"

definition sums_ptr :: "device \<Rightarrow> tsne_params \<Rightarrow> ptr" where
  "sums_ptr D p =
     (if norms_in_childl D p then shift (base B_childl) (2 * npts p) else base B_sums)"

subsection \<open>Allocation and initialisation\<close>

text \<open>
  The buffers in the order of the source, each with the initialisation the source gives
  it (none for most). The buffers of the \<^verbatim>\<open>else\<close> branches exist only when their
  branch is taken.
\<close>

definition allocate :: "device \<Rightarrow> tsne_params \<Rightarrow> real list \<Rightarrow> int list \<Rightarrow> int list \<Rightarrow> real list
    \<Rightarrow> store" where
  "allocate D p VAL COL ROW Y =
     (let n = npts p; nn = NNODES D p;
          st = (\<lambda>b. [])(B_VAL := VAL, B_COL := map real_of_int COL,
                 B_ROW := map real_of_int ROW, B_Y := Y);
          st = memset0 (base B_limiter) 1 (device_buffer D B_limiter 1 st);
          st = fill (base B_maxdepthd) 1 1 (device_buffer D B_maxdepthd 1 st);
          st = device_buffer D B_bottomd 1 st;
          st = memset0 (base B_radiusd) 1 (device_buffer D B_radiusd 1 st);
          st = device_buffer D B_rep_forces ((nn + 1) * 2) st;
          st = device_buffer D B_childl ((nn + 1) * 4) st;
          st = fill (base B_massl) (nn + 1) 1 (device_buffer D B_massl (nn + 1) st);
          st = device_buffer D B_sortl (nn + 1) st;
          st = (if reductions_in_sortl D p then st
                else device_buffer D B_minyl (blocks D * FACTOR1 D)
                      (device_buffer D B_minxl (blocks D * FACTOR1 D)
                        (device_buffer D B_maxyl (blocks D * FACTOR1 D)
                          (device_buffer D B_maxxl (blocks D * FACTOR1 D) st))));
          st = device_buffer D B_Z_norm 1 st;
          st = (if norms_in_childl D p then st
                else device_buffer D B_sums 2
                      (device_buffer D B_norm n (device_buffer D B_norm_add1 n st)));
          st = fill (base B_gains_bh) (n * 2) 1 (device_buffer D B_gains_bh (n * 2) st);
          st = memset0 (base B_old_forces) (n * 2) (device_buffer D B_old_forces (n * 2) st);
          st = device_buffer D B_YY ((nn + 1) * 2) st
      in st)"

definition initialize_embeddings :: "device \<Rightarrow> tsne_params \<Rightarrow> store \<Rightarrow> store" where
  "initialize_embeddings D p st =
     (if pca_intialization p = True then
        copyAsync (shift (base B_YY) (NNODES D p + 1)) (shift (base B_Y) (npts p)) (npts p)
          (copyAsync (base B_YY) (base B_Y) (npts p) st)
      else
        random_vector D (base B_YY) (- 0.001) 0.001 ((NNODES D p + 1) * 2) (random_state p) st)"

subsection \<open>The host state and one iteration\<close>

text \<open>
  The host variables of the loop and the memory, with two records kept for the
  statements below: the iterations at which \<^verbatim>\<open>scalarMultiply\<close> ran on \<^verbatim>\<open>VAL\<close>, and
  the scalar arguments of every \<^verbatim>\<open>IntegrationKernel\<close> launch, both in the order of
  execution. Printing and the timers are left out.
\<close>

record integ_launch =
  l_iter :: int
  l_learning_rate :: real
  l_momentum :: real
  l_max_bounds :: real

record state =
  mem :: store
  momentum :: real
  learning_rate :: real
  max_bounds :: real
  rescalings :: "int list"
  integrations :: "integ_launch list"

definition exaggeration_switch :: "tsne_params \<Rightarrow> int \<Rightarrow> state \<Rightarrow> state" where
  "exaggeration_switch p iter s =
     (if iter = exaggeration_iter p then
        s\<lparr>momentum := post_momentum p,
          mem := scalarMultiply (base B_VAL) (1 / early_exaggeration p) (NNZ p) (mem s),
          rescalings := rescalings s @ [iter]\<rparr>
      else s)"

definition bounding_box :: "kernels \<Rightarrow> device \<Rightarrow> tsne_params \<Rightarrow> store \<Rightarrow> store" where
  "bounding_box K D p st =
     (let nn = NNODES D p;
          st = memset0 (shift startl nn) 1 st
      in launch (BoundingBoxKernel K)
           [base B_childl, base B_YY, shift (base B_YY) (nn + 1), shift (base B_YY) nn,
            shift (base B_YY) (2 * nn + 1), maxxl D p, maxyl D p, minxl D p, minyl D p,
            base B_limiter, base B_radiusd]
           [4 * nn, nn, npts p] [] st)"

definition clear1 :: "kernels \<Rightarrow> device \<Rightarrow> tsne_params \<Rightarrow> store \<Rightarrow> store" where
  "clear1 K D p st =
     launch (ClearKernel1 K) [base B_childl] [4 * NNODES D p, 4 * npts p] [] st"

definition tree_building :: "kernels \<Rightarrow> device \<Rightarrow> tsne_params \<Rightarrow> store \<Rightarrow> store" where
  "tree_building K D p st =
     (let nn = NNODES D p;
          st = fill (base B_bottomd) 1 (real_of_int nn) st
      in launch (TreeBuildingKernel K)
           [base B_childl, base B_YY, shift (base B_YY) (nn + 1), base B_maxdepthd,
            base B_bottomd, base B_radiusd]
           [nn, npts p] [] st)"

definition clear2 :: "kernels \<Rightarrow> device \<Rightarrow> tsne_params \<Rightarrow> store \<Rightarrow> store" where
  "clear2 K D p st =
     (let nn = NNODES D p;
          st = fill (shift (base B_massl) nn) 1 (- 1) st
      in launch (ClearKernel2 K) [startl, base B_massl, base B_bottomd] [nn] [] st)"

definition summarization :: "kernels \<Rightarrow> device \<Rightarrow> tsne_params \<Rightarrow> store \<Rightarrow> store" where
  "summarization K D p st =
     (let nn = NNODES D p
      in launch (SummarizationKernel K)
           [countl D p, base B_childl, base B_massl, base B_YY, shift (base B_YY) (nn + 1),
            base B_bottomd]
           [nn, npts p] [] st)"

definition sort_phase :: "kernels \<Rightarrow> device \<Rightarrow> tsne_params \<Rightarrow> store \<Rightarrow> store" where
  "sort_phase K D p st =
     launch (SortKernel K) [base B_sortl, countl D p, startl, base B_childl, base B_bottomd]
       [NNODES D p, npts p] [] st"

definition repulsion :: "kernels \<Rightarrow> device \<Rightarrow> tsne_params \<Rightarrow> store \<Rightarrow> store" where
  "repulsion K D p st =
     (let nn = NNODES D p;
          st = unaryOp_at radiusd_squared 1 (\<lambda>x. x * x) st;
          st = memset0 (base B_rep_forces) ((nn + 1) * 2) st;
          st = memset0 (base B_Z_norm) 1 st
      in launch (RepulsionKernel K)
           [base B_sortl, base B_childl, base B_massl, base B_YY, shift (base B_YY) (nn + 1),
            base B_rep_forces, shift (base B_rep_forces) (nn + 1), base B_Z_norm,
            radiusd_squared, base B_maxdepthd]
           [nn, 4 * nn, npts p] [theta p, epssq p, theta p * theta p] st)"

definition find_normalization :: "tsne_params \<Rightarrow> store \<Rightarrow> store" where
  "find_normalization p st = unaryOp_at (base B_Z_norm) 1 (\<lambda>x. 1 / (x - N_float p)) st"

definition attraction :: "kernels \<Rightarrow> device \<Rightarrow> tsne_params \<Rightarrow> store \<Rightarrow> store" where
  "attraction K D p st =
     (let nn = NNODES D p;
          st = launch (get_norm K)
                 [base B_YY, shift (base B_YY) (nn + 1), norm_ptr D p, norm_add1_ptr D p]
                 [npts p] [] st;
          st = memset0 attr_forces (npts p * 2) st
      in launch (attractive_kernel_bh K)
           [base B_VAL, base B_COL, base B_ROW, base B_YY, shift (base B_YY) (nn + 1),
            norm_ptr D p, norm_add1_ptr D p, attr_forces, shift attr_forces (npts p)]
           [NNZ p] [] st)"

definition integration :: "kernels \<Rightarrow> device \<Rightarrow> tsne_params \<Rightarrow> int \<Rightarrow> state \<Rightarrow> state" where
  "integration K D p iter s =
     (let nn = NNODES D p;
          st = memset0 (sums_ptr D p) 2 (mem s);
          st = launch (IntegrationKernel K)
                 [base B_YY, shift (base B_YY) (nn + 1), attr_forces, shift attr_forces (npts p),
                  base B_rep_forces, shift (base B_rep_forces) (nn + 1),
                  base B_gains_bh, shift (base B_gains_bh) (npts p),
                  base B_old_forces, shift (base B_old_forces) (npts p),
                  base B_Z_norm, sums_ptr D p]
                 [npts p]
                 [learning_rate s, momentum s, early_exaggeration p, max_bounds s] st;
          st = unaryOp_at (sums_ptr D p) 2 (\<lambda>x. x * div_N p) st;
          st = launch (mean_centre K)
                 [base B_YY, shift (base B_YY) (nn + 1), sums_ptr D p] [npts p] [] st
      in s\<lparr>mem := st,
           integrations := integrations s @
             [\<lparr>l_iter = iter, l_learning_rate = learning_rate s, l_momentum = momentum s,
               l_max_bounds = max_bounds s\<rparr>]\<rparr>)"

definition tree_phases :: "kernels \<Rightarrow> device \<Rightarrow> tsne_params \<Rightarrow> store \<Rightarrow> store" where
  "tree_phases K D p st =
     sort_phase K D p (summarization K D p (clear2 K D p (tree_building K D p
       (clear1 K D p (bounding_box K D p st)))))"

definition forces :: "kernels \<Rightarrow> device \<Rightarrow> tsne_params \<Rightarrow> store \<Rightarrow> store" where
  "forces K D p st =
     attraction K D p (find_normalization p (repulsion K D p (tree_phases K D p st)))"

definition iteration :: "kernels \<Rightarrow> device \<Rightarrow> tsne_params \<Rightarrow> int \<Rightarrow> state \<Rightarrow> state" where
  "iteration K D p iter s =
     (let s = exaggeration_switch p iter s;
          s = s\<lparr>mem := forces K D p (mem s)\<rparr>;
          s = integration K D p iter s
      in s\<lparr>max_bounds := max_bounds s + 0.01\<rparr>)"

subsection \<open>The loop and the entry point\<close>

text \<open>
  \<^verbatim>\<open>for (int iter = 0; iter < max_iter; iter++)\<close>, with the bound as an argument
  \<open>stop\<close> so that the state after any number of iterations can be named;
  \<^verbatim>\<open>Barnes_Hut\<close> runs it to \<open>max_iter\<close>.
\<close>

function Barnes_Hut_loop :: "kernels \<Rightarrow> device \<Rightarrow> tsne_params \<Rightarrow> int \<Rightarrow> int \<Rightarrow> state \<Rightarrow> state" where
  "Barnes_Hut_loop K D p iter stop s =
     (if iter < stop then Barnes_Hut_loop K D p (iter + 1) stop (iteration K D p iter s)
      else s)"
  by pat_completeness auto
termination
  by (relation "measure (\<lambda>(K, D, p, iter, stop, s). nat (stop - iter))") auto

definition Barnes_Hut_entry :: "device \<Rightarrow> tsne_params \<Rightarrow> real list \<Rightarrow> int list \<Rightarrow> int list
    \<Rightarrow> real list \<Rightarrow> state" where
  "Barnes_Hut_entry D p VAL COL ROW Y =
     \<lparr>mem = initialize_embeddings D p (allocate D p VAL COL ROW Y),
      momentum = pre_momentum p, learning_rate = pre_learning_rate p, max_bounds = 100,
      rescalings = [], integrations = []\<rparr>"

definition Barnes_Hut_exit :: "device \<Rightarrow> tsne_params \<Rightarrow> state \<Rightarrow> state" where
  "Barnes_Hut_exit D p s =
     s\<lparr>mem := copyAsync (shift (base B_Y) (npts p)) (shift (base B_YY) (NNODES D p + 1)) (npts p)
                (copyAsync (base B_Y) (base B_YY) (npts p) (mem s))\<rparr>"

definition Barnes_Hut :: "kernels \<Rightarrow> device \<Rightarrow> tsne_params \<Rightarrow> real list \<Rightarrow> int list \<Rightarrow> int list
    \<Rightarrow> real list \<Rightarrow> state" where
  "Barnes_Hut K D p VAL COL ROW Y =
     Barnes_Hut_exit D p
       (Barnes_Hut_loop K D p 0 (max_iter p) (Barnes_Hut_entry D p VAL COL ROW Y))"

text \<open>The state in which iteration \<open>k\<close> starts, and the caller's view of the result.\<close>

definition state_at :: "kernels \<Rightarrow> device \<Rightarrow> tsne_params \<Rightarrow> real list \<Rightarrow> int list \<Rightarrow> int list
    \<Rightarrow> real list \<Rightarrow> int \<Rightarrow> state" where
  "state_at K D p VAL COL ROW Y k =
     Barnes_Hut_loop K D p 0 k (Barnes_Hut_entry D p VAL COL ROW Y)"

definition embedding :: "state \<Rightarrow> real list" where
  "embedding s = mem s B_Y"

definition weights :: "state \<Rightarrow> real list" where
  "weights s = mem s B_VAL"





subsection \<open>The schedule of the loop\<close>

text \<open>
  What iteration \<open>i\<close> hands to the integrator, and whether the switch at the
  exaggeration horizon has happened once \<open>m\<close> iterations have run. Both are
  compared with the loop below.
\<close>

definition launch_of :: "tsne_params \<Rightarrow> nat \<Rightarrow> integ_launch" where
  "launch_of p i =
     \<lparr>l_iter = int i, l_learning_rate = pre_learning_rate p,
      l_momentum = (if 0 \<le> exaggeration_iter p \<and> exaggeration_iter p \<le> int i
                    then post_momentum p else pre_momentum p),
      l_max_bounds = 100 + 0.01 * real i\<rparr>"

definition switched :: "tsne_params \<Rightarrow> nat \<Rightarrow> bool" where
  "switched p m \<longleftrightarrow> 0 \<le> exaggeration_iter p \<and> exaggeration_iter p < int m"

subsection \<open>The integrator and the re-centring kernel, from the specification\<close>

text \<open>
  Modelled from the spec: \<^verbatim>\<open>IntegrationKernel\<close> and \<^verbatim>\<open>mean_centre\<close>
  (bh\_kernels.h) are not among the sources. Section 4.7, per point and per axis:
  combine the attractive and the repulsion-normalised force (divide the repulsive term
  by \<open>Z\<close>) into a net gradient; if the sign of the gradient agrees with the sign of
  the previous velocity, increase the gain slightly, otherwise decrease it
  multiplicatively, never below the floor; the velocity becomes
  \<open>momentum * velocity - learning_rate * gain * gradient\<close>; add the velocity to the
  position and clamp the position to the growth bound. After all points are updated
  the mean position is computed and subtracted from every point. The specification
  gives no value for the gain step, the gain decay and the floor the kernel uses (the
  launch does not pass \<^verbatim>\<open>min_gain\<close>): they are the parameters \<open>c\<close>. The velocity
  lives in \<^verbatim>\<open>old_forces\<close>.

  The launch hands the kernel the cell \<^verbatim>\<open>Z_norm\<close>, in which the host has stored
  the reciprocal of \<open>Z\<close>, and the two cells \<^verbatim>\<open>sums\<close>, which the host has set to
  zero and afterwards multiplies by \<open>1 / n\<close> and hands to \<^verbatim>\<open>mean_centre\<close>: the
  kernel divides by \<open>Z\<close> by multiplying with the cell, and adds the new coordinates of
  every point to \<^verbatim>\<open>sums\<close>.
\<close>

record integ_consts =
  gain_step :: real
  gain_decay :: real
  gain_floor :: real

definition net_gradient :: "real \<Rightarrow> real \<Rightarrow> real \<Rightarrow> real" where
  "net_gradient attract repel z = attract - repel * z"

definition integrate_axis :: "integ_consts \<Rightarrow> real \<Rightarrow> real \<Rightarrow> real \<Rightarrow> real
    \<Rightarrow> real \<times> real \<times> real \<times> real \<times> real \<Rightarrow> real \<times> real \<times> real" where
  "integrate_axis c eta mom bound z v =
     (case v of (pos, attract, repel, gain, vel) \<Rightarrow>
        let grad = net_gradient attract repel z;
            gain' = max (gain_floor c)
                      (if sgn grad = sgn vel then gain + gain_step c else gain * gain_decay c);
            vel' = mom * vel - eta * gain' * grad;
            pos' = max (- bound) (min bound (pos + vel'))
        in (pos', gain', vel'))"

definition integrate_points :: "integ_consts \<Rightarrow> real \<Rightarrow> real \<Rightarrow> real \<Rightarrow> real \<Rightarrow> nat
    \<Rightarrow> ptr \<Rightarrow> ptr \<Rightarrow> ptr \<Rightarrow> ptr \<Rightarrow> ptr \<Rightarrow> store \<Rightarrow> (real \<times> real \<times> real) list" where
  "integrate_points c eta mom bound z N pos attract repel gain old st =
     map (\<lambda>i. integrate_axis c eta mom bound z
                 (cell (shift pos (int i)) st, cell (shift attract (int i)) st,
                  cell (shift repel (int i)) st, cell (shift gain (int i)) st,
                  cell (shift old (int i)) st))
       [0 ..< N]"



subsection \<open>A small configuration\<close>

text \<open>
  Kernels that leave the memory as it is, a device with one multiprocessor whose fresh
  buffers hold zeros, and numeric primitives that return empty arrays: the concrete
  instances at which the statements below are evaluated.
\<close>

definition idle :: kernel where
  "idle ptrs ints floats st = st"

definition idle_kernels :: kernels where
  "idle_kernels =
     \<lparr>BoundingBoxKernel = idle, ClearKernel1 = idle, TreeBuildingKernel = idle,
      ClearKernel2 = idle, SummarizationKernel = idle, SortKernel = idle,
      RepulsionKernel = idle, get_norm = idle, attractive_kernel_bh = idle,
      IntegrationKernel = idle, mean_centre = idle\<rparr>"

definition plain_device :: device where
  "plain_device = \<lparr>blocks = 1, FACTOR1 = 1, uninit = (\<lambda>b i. 0), rng = (\<lambda>s lo hi i. 0),
     entropy = 0\<rparr>"


definition idle_prims :: prims where
  "idle_prims =
     \<lparr>Stats_mean = (\<lambda>inp c r. []), Stats_cov = (\<lambda>inp m s c r. []),
      calEig = (\<lambda>inp prms. ([], [])), truncZeroOrigin = (\<lambda>inp a b c. []),
      ratio = (\<lambda>inp c. []), seqRoot = (\<lambda>inp s c. [])\<rparr>"

section \<open>Properties of the array primitives\<close>

lemma length_map_cells [simp]: "length (map_cells off len g xs) = length xs"
  by (simp add: map_cells_def)

lemma length_write_cells [simp]: "length (write_cells off vs xs) = length xs"
  by (simp add: write_cells_def)

lemma write_cells_all: "length vs = length xs \<Longrightarrow> write_cells 0 vs xs = vs"
  by (simp add: write_cells_def)

lemma colReverse_row: "length W = p \<Longrightarrow> colReverse W 1 p = rev W"
proof -
  assume len: "length W = p"
  have "map (\<lambda>i. W ! (p - 1 - i)) [0 ..< p] = rev W"
    using len by (intro nth_equalityI) (simp_all add: rev_nth)
  then show ?thesis
    using len by (simp add: colReverse_def write_cells_all)
qed

lemma descending_rev: "sorted xs \<Longrightarrow> descending (rev xs)"
  by (simp add: descending_def sorted_wrt_rev)

lemma descending_take: "descending xs \<Longrightarrow> descending (take k xs)"
  unfolding descending_def by (rule sorted_wrt_take)

lemma descending_drop: "descending xs \<Longrightarrow> descending (drop k xs)"
  unfolding descending_def by (rule sorted_wrt_drop)

lemma descending_map_mono:
  assumes "descending xs" and "mono f"
  shows "descending (map f xs)"
  using assms unfolding descending_def
  by (induction xs) (auto dest: monoD)

lemma mono_root_or_zero: "mono (\<lambda>x::real. if x > 0 then sqrt x else 0)"
  by (rule monoI) auto

section \<open>The loop of Barnes\_Hut\<close>

declare Barnes_Hut_loop.simps [simp del]

declare round_up32.simps [simp del]

lemma fst_base [simp]: "fst (base b) = b"
  by (simp add: base_def)

lemma snd_base [simp]: "snd (base b) = 0"
  by (simp add: base_def)

lemma fst_shift [simp]: "fst (shift p k) = fst p"
  by (simp add: shift_def)

lemma snd_shift [simp]: "snd (shift p k) = nat (int (snd p) + k)"
  by (simp add: shift_def)

lemma launch_read_only: "b \<in> read_only \<Longrightarrow> launch k ptrs ints floats st b = st b"
  by (simp add: launch_def)


lemma length_launch [simp]: "length (launch k ptrs ints floats st b) = length (st b)"
  by (simp add: launch_def Let_def)

lemma fill_other: "fst q \<noteq> b \<Longrightarrow> fill q len v st b = st b"
  by (simp add: fill_def)

lemma length_fill [simp]: "length (fill q len v st b) = length (st b)"
  by (simp add: fill_def)

lemma memset0_other: "fst q \<noteq> b \<Longrightarrow> memset0 q len st b = st b"
  by (simp add: memset0_def fill_other)

lemma length_memset0 [simp]: "length (memset0 q len st b) = length (st b)"
  by (simp add: memset0_def)

lemma unaryOp_at_other: "fst q \<noteq> b \<Longrightarrow> unaryOp_at q len op st b = st b"
  by (simp add: unaryOp_at_def)

lemma length_unaryOp_at [simp]: "length (unaryOp_at q len op st b) = length (st b)"
  by (simp add: unaryOp_at_def)

lemma length_scalarMultiply [simp]: "length (scalarMultiply q c len st b) = length (st b)"
  by (simp add: scalarMultiply_def)

lemma copyAsync_other: "fst dst \<noteq> b \<Longrightarrow> copyAsync dst src len st b = st b"
  by (simp add: copyAsync_def)

lemma length_copyAsync [simp]: "length (copyAsync dst src len st b) = length (st b)"
  by (simp add: copyAsync_def)

lemma write_at_other: "fst q \<noteq> b \<Longrightarrow> write_at q vs st b = st b"
  by (simp add: write_at_def)

lemma length_write_at [simp]: "length (write_at q vs st b) = length (st b)"
  by (simp add: write_at_def)

lemma fst_overlays [simp]:
  "fst attr_forces = B_Y" "fst radiusd_squared = B_radiusd" "fst startl = B_rep_forces"
  "fst (countl D p) = B_rep_forces"
  by (simp_all add: attr_forces_def radiusd_squared_def startl_def countl_def)

lemma fst_sums_ptr: "fst (sums_ptr D p) = (if norms_in_childl D p then B_childl else B_sums)"
  by (simp add: sums_ptr_def)

lemma fst_norm_ptr: "fst (norm_ptr D p) = (if norms_in_childl D p then B_childl else B_norm)"
  by (simp add: norm_ptr_def)

lemma fst_norm_add1_ptr:
  "fst (norm_add1_ptr D p) = (if norms_in_childl D p then B_childl else B_norm_add1)"
  by (simp add: norm_add1_ptr_def)

lemma fst_reductions:
  "fst (maxxl D p) = (if reductions_in_sortl D p then B_sortl else B_maxxl)"
  "fst (maxyl D p) = (if reductions_in_sortl D p then B_sortl else B_maxyl)"
  "fst (minxl D p) = (if reductions_in_sortl D p then B_sortl else B_minxl)"
  "fst (minyl D p) = (if reductions_in_sortl D p then B_sortl else B_minyl)"
  by (simp_all add: maxxl_def maxyl_def minxl_def minyl_def)

lemmas fst_ptrs = fst_sums_ptr fst_norm_ptr fst_norm_add1_ptr fst_reductions

lemmas phase_defs = bounding_box_def clear1_def tree_building_def clear2_def
  summarization_def sort_phase_def repulsion_def find_normalization_def attraction_def
  tree_phases_def

lemma forces_VAL: "forces K D p st B_VAL = st B_VAL"
  by (simp add: forces_def phase_defs Let_def launch_read_only read_only_def
      memset0_other fill_other unaryOp_at_other)

lemma length_forces [simp]: "length (forces K D p st b) = length (st b)"
  by (simp add: forces_def phase_defs Let_def)

lemma integration_fields [simp]:
  "momentum (integration K D p i s) = momentum s"
  "learning_rate (integration K D p i s) = learning_rate s"
  "max_bounds (integration K D p i s) = max_bounds s"
  "rescalings (integration K D p i s) = rescalings s"
  "integrations (integration K D p i s) = integrations s @
     [\<lparr>l_iter = i, l_learning_rate = learning_rate s, l_momentum = momentum s,
       l_max_bounds = max_bounds s\<rparr>]"
  by (simp_all add: integration_def Let_def)

lemma integration_VAL: "mem (integration K D p i s) B_VAL = mem s B_VAL"
  by (simp add: integration_def Let_def launch_read_only read_only_def
      memset0_other unaryOp_at_other fst_ptrs)

lemma length_integration [simp]: "length (mem (integration K D p i s) b) = length (mem s b)"
  by (simp add: integration_def Let_def)

lemma exaggeration_switch_fields [simp]:
  "momentum (exaggeration_switch p i s) = (if i = exaggeration_iter p then post_momentum p else momentum s)"
  "learning_rate (exaggeration_switch p i s) = learning_rate s"
  "max_bounds (exaggeration_switch p i s) = max_bounds s"
  "rescalings (exaggeration_switch p i s) =
     rescalings s @ (if i = exaggeration_iter p then [i] else [])"
  "integrations (exaggeration_switch p i s) = integrations s"
  by (simp_all add: exaggeration_switch_def)

lemma length_exaggeration_switch [simp]:
  "length (mem (exaggeration_switch p i s) b) = length (mem s b)"
  by (simp add: exaggeration_switch_def)

lemma iteration_fields:
  "momentum (iteration K D p i s) = (if i = exaggeration_iter p then post_momentum p else momentum s)"
  "learning_rate (iteration K D p i s) = learning_rate s"
  "max_bounds (iteration K D p i s) = max_bounds s + 0.01"
  "rescalings (iteration K D p i s) =
     rescalings s @ (if i = exaggeration_iter p then [i] else [])"
  "integrations (iteration K D p i s) = integrations s @
     [\<lparr>l_iter = i, l_learning_rate = learning_rate s,
       l_momentum = (if i = exaggeration_iter p then post_momentum p else momentum s),
       l_max_bounds = max_bounds s\<rparr>]"
  by (simp_all add: iteration_def Let_def)

lemma iteration_weights:
  "weights (iteration K D p i s) =
     (if i = exaggeration_iter p
      then map_cells 0 (nat (NNZ p)) (\<lambda>x. x * (1 / early_exaggeration p)) (weights s)
      else weights s)"
  by (simp add: iteration_def Let_def weights_def integration_VAL forces_VAL
      exaggeration_switch_def scalarMultiply_def unaryOp_at_def)

lemma length_iteration [simp]: "length (mem (iteration K D p i s) b) = length (mem s b)"
  by (simp add: iteration_def Let_def)

lemma loop_done: "stop \<le> i \<Longrightarrow> Barnes_Hut_loop K D p i stop s = s"
  by (simp add: Barnes_Hut_loop.simps)

lemma loop_unfold:
  "i < stop \<Longrightarrow> Barnes_Hut_loop K D p i stop s = Barnes_Hut_loop K D p (i + 1) stop (iteration K D p i s)"
  by (subst Barnes_Hut_loop.simps) simp

lemma loop_snoc:
  "i \<le> k \<Longrightarrow> Barnes_Hut_loop K D p i (k + 1) s = iteration K D p k (Barnes_Hut_loop K D p i k s)"
proof (induction "nat (k - i)" arbitrary: i s)
  case 0
  then have "i = k" by simp
  then show ?case
    by (simp add: loop_unfold loop_done)
next
  case (Suc m)
  then have lt: "i < k" and m: "m = nat (k - (i + 1))" by simp_all
  have "Barnes_Hut_loop K D p i (k + 1) s
      = Barnes_Hut_loop K D p (i + 1) (k + 1) (iteration K D p i s)"
    using lt by (simp add: loop_unfold)
  also have "\<dots> = iteration K D p k (Barnes_Hut_loop K D p (i + 1) k (iteration K D p i s))"
    using Suc.hyps(1) [OF m] lt by simp
  also have "\<dots> = iteration K D p k (Barnes_Hut_loop K D p i k s)"
    using lt by (simp add: loop_unfold)
  finally show ?case .
qed

lemma state_at_0: "k \<le> 0 \<Longrightarrow> state_at K D p VAL COL ROW Y k = Barnes_Hut_entry D p VAL COL ROW Y"
  by (simp add: state_at_def loop_done)

lemma state_at_Suc:
  "0 \<le> k \<Longrightarrow> state_at K D p VAL COL ROW Y (k + 1) = iteration K D p k (state_at K D p VAL COL ROW Y k)"
  by (simp add: state_at_def loop_snoc)


lemma map_cells_all: "length xs \<le> len \<Longrightarrow> map_cells 0 len g xs = map g xs"
  by (simp add: map_cells_def)

lemma allocate_callers:
  "allocate D p VAL COL ROW Y B_VAL = VAL"
  "allocate D p VAL COL ROW Y B_Y = Y"
  by (simp_all add: allocate_def Let_def device_buffer_def fill_def memset0_def)

lemma initialize_embeddings_callers:
  "initialize_embeddings D p st B_VAL = st B_VAL"
  "initialize_embeddings D p st B_Y = st B_Y"
  by (simp_all add: initialize_embeddings_def copyAsync_def random_vector_def)

lemma entry_fields [simp]:
  "momentum (Barnes_Hut_entry D p VAL COL ROW Y) = pre_momentum p"
  "learning_rate (Barnes_Hut_entry D p VAL COL ROW Y) = pre_learning_rate p"
  "max_bounds (Barnes_Hut_entry D p VAL COL ROW Y) = 100"
  "rescalings (Barnes_Hut_entry D p VAL COL ROW Y) = []"
  "integrations (Barnes_Hut_entry D p VAL COL ROW Y) = []"
  "weights (Barnes_Hut_entry D p VAL COL ROW Y) = VAL"
  by (simp_all add: Barnes_Hut_entry_def weights_def initialize_embeddings_callers
      allocate_callers)

lemma exit_fields [simp]:
  "momentum (Barnes_Hut_exit D p s) = momentum s"
  "learning_rate (Barnes_Hut_exit D p s) = learning_rate s"
  "max_bounds (Barnes_Hut_exit D p s) = max_bounds s"
  "rescalings (Barnes_Hut_exit D p s) = rescalings s"
  "integrations (Barnes_Hut_exit D p s) = integrations s"
  "weights (Barnes_Hut_exit D p s) = weights s"
  by (simp_all add: Barnes_Hut_exit_def weights_def copyAsync_other)

lemma switched_Suc:
  "switched p (Suc m) \<longleftrightarrow> switched p m \<or> int m = exaggeration_iter p"
  by (auto simp: switched_def)

lemma not_both: "switched p m \<Longrightarrow> int m \<noteq> exaggeration_iter p"
  by (auto simp: switched_def)

lemma state_at_nat:
  "momentum (state_at K D p VAL COL ROW Y (int m)) =
     (if switched p m then post_momentum p else pre_momentum p) \<and>
   learning_rate (state_at K D p VAL COL ROW Y (int m)) = pre_learning_rate p \<and>
   max_bounds (state_at K D p VAL COL ROW Y (int m)) = 100 + 0.01 * real m \<and>
   rescalings (state_at K D p VAL COL ROW Y (int m)) =
     (if switched p m then [exaggeration_iter p] else []) \<and>
   integrations (state_at K D p VAL COL ROW Y (int m)) = map (launch_of p) [0 ..< m] \<and>
   weights (state_at K D p VAL COL ROW Y (int m)) =
     (if switched p m
      then map_cells 0 (nat (NNZ p)) (\<lambda>x. x * (1 / early_exaggeration p)) VAL else VAL)"
proof (induction m)
  case 0
  show ?case
    by (simp add: state_at_0 switched_def)
next
  case (Suc m)
  have step: "state_at K D p VAL COL ROW Y (int (Suc m))
      = iteration K D p (int m) (state_at K D p VAL COL ROW Y (int m))"
    using state_at_Suc [of "int m" K D p VAL COL ROW Y] by (simp add: add.commute)
  have l: "launch_of p m =
     \<lparr>l_iter = int m, l_learning_rate = pre_learning_rate p,
      l_momentum = (if int m = exaggeration_iter p then post_momentum p
                    else if switched p m then post_momentum p else pre_momentum p),
      l_max_bounds = 100 + 0.01 * real m\<rparr>"
    by (auto simp: launch_of_def switched_def)
  show ?case
    unfolding step
    using Suc.IH not_both [of p m]
    by (auto simp: iteration_fields iteration_weights switched_Suc l add_divide_distrib)
qed

lemma state_at_clip: "state_at K D p VAL COL ROW Y k = state_at K D p VAL COL ROW Y (int (nat k))"
  by (cases "0 \<le> k") (simp_all add: state_at_0)

lemma state_at_fields:
  "momentum (state_at K D p VAL COL ROW Y k) =
     (if switched p (nat k) then post_momentum p else pre_momentum p)"
  "learning_rate (state_at K D p VAL COL ROW Y k) = pre_learning_rate p"
  "max_bounds (state_at K D p VAL COL ROW Y k) = 100 + 0.01 * real (nat k)"
  "rescalings (state_at K D p VAL COL ROW Y k) =
     (if switched p (nat k) then [exaggeration_iter p] else [])"
  "integrations (state_at K D p VAL COL ROW Y k) = map (launch_of p) [0 ..< nat k]"
  "weights (state_at K D p VAL COL ROW Y k) =
     (if switched p (nat k)
      then map_cells 0 (nat (NNZ p)) (\<lambda>x. x * (1 / early_exaggeration p)) VAL else VAL)"
  by (subst state_at_clip, simp add: state_at_nat del: int_nat_eq)+

lemma Barnes_Hut_state_at:
  "Barnes_Hut K D p VAL COL ROW Y =
     Barnes_Hut_exit D p (state_at K D p VAL COL ROW Y (max_iter p))"
  by (simp add: Barnes_Hut_def state_at_def)

lemma Barnes_Hut_log:
  "integrations (Barnes_Hut K D p VAL COL ROW Y) = map (launch_of p) [0 ..< nat (max_iter p)]"
  by (simp add: Barnes_Hut_state_at state_at_fields)

lemma Barnes_Hut_rescalings:
  "rescalings (Barnes_Hut K D p VAL COL ROW Y) =
     (if switched p (nat (max_iter p)) then [exaggeration_iter p] else [])"
  by (simp add: Barnes_Hut_state_at state_at_fields)

lemma Barnes_Hut_weights:
  "weights (Barnes_Hut K D p VAL COL ROW Y) =
     (if switched p (nat (max_iter p))
      then map_cells 0 (nat (NNZ p)) (\<lambda>x. x * (1 / early_exaggeration p)) VAL else VAL)"
  by (simp add: Barnes_Hut_state_at state_at_fields)

lemma switched_max_iter:
  "switched p (nat (max_iter p)) \<longleftrightarrow> 0 \<le> exaggeration_iter p \<and> exaggeration_iter p < max_iter p"
  by (auto simp: switched_def)

section \<open>What the caller's buffer and the entropy can reach\<close>

subsection \<open>Frames\<close>

lemma launch_frame:
  assumes "b \<notin> fst ` set ptrs"
  shows "launch k ptrs ints floats (st(b := y)) = (launch k ptrs ints floats st)(b := y)"
proof -
  have eq: "(\<lambda>b'. if b' \<in> fst ` set ptrs then (st(b := y)) b' else [])
      = (\<lambda>b'. if b' \<in> fst ` set ptrs then st b' else [])"
    using assms by (auto simp: fun_eq_iff)
  show ?thesis
    using assms by (auto simp: launch_def Let_def eq fun_eq_iff)
qed

lemma fill_frame: "fst q \<noteq> b \<Longrightarrow> fill q len v (st(b := y)) = (fill q len v st)(b := y)"
  by (auto simp: fill_def fun_eq_iff)

lemma memset0_frame: "fst q \<noteq> b \<Longrightarrow> memset0 q len (st(b := y)) = (memset0 q len st)(b := y)"
  by (simp add: memset0_def fill_frame)

lemma unaryOp_at_frame:
  "fst q \<noteq> b \<Longrightarrow> unaryOp_at q len op (st(b := y)) = (unaryOp_at q len op st)(b := y)"
  by (auto simp: unaryOp_at_def fun_eq_iff)

lemma device_buffer_frame:
  "b' \<noteq> b \<Longrightarrow> device_buffer D b' len (st(b := y)) = (device_buffer D b' len st)(b := y)"
  by (auto simp: device_buffer_def fun_eq_iff)

lemma random_vector_frame:
  "fst q \<noteq> b \<Longrightarrow>
     random_vector D q lo hi len seed (st(b := y)) = (random_vector D q lo hi len seed st)(b := y)"
  by (auto simp: random_vector_def Let_def fun_eq_iff)

lemmas frames = launch_frame fill_frame memset0_frame unaryOp_at_frame device_buffer_frame
  random_vector_frame

lemma tree_frame:
  "bounding_box K D p (st(B_Y := y)) = (bounding_box K D p st)(B_Y := y)"
  "clear1 K D p (st(B_Y := y)) = (clear1 K D p st)(B_Y := y)"
  "tree_building K D p (st(B_Y := y)) = (tree_building K D p st)(B_Y := y)"
  "clear2 K D p (st(B_Y := y)) = (clear2 K D p st)(B_Y := y)"
  "summarization K D p (st(B_Y := y)) = (summarization K D p st)(B_Y := y)"
  "sort_phase K D p (st(B_Y := y)) = (sort_phase K D p st)(B_Y := y)"
  "repulsion K D p (st(B_Y := y)) = (repulsion K D p st)(B_Y := y)"
  "find_normalization p (st(B_Y := y)) = (find_normalization p st)(B_Y := y)"
  by (simp_all add: phase_defs Let_def frames fst_ptrs)

lemma map_cells_const: "length xs \<le> len \<Longrightarrow> map_cells 0 len (\<lambda>_. v) xs = replicate (length xs) v"
  by (simp add: map_cells_all map_replicate_const)

lemma attraction_zeroes:
  assumes "length y \<le> nat (npts p * 2)" and "length y' = length y"
  shows "attraction K D p (st(B_Y := y)) = attraction K D p (st(B_Y := y'))"
proof -
  have z: "memset0 attr_forces (npts p * 2) (st'(B_Y := y''))
      = st'(B_Y := replicate (length y) 0)" if "length y'' = length y" for st' y''
    using assms that
    by (simp add: memset0_def fill_def attr_forces_def map_cells_const)
  show ?thesis
    using assms by (simp add: attraction_def Let_def launch_frame fst_ptrs z)
qed

lemma forces_forget_Y:
  assumes "length y \<le> nat (npts p * 2)" and "length y' = length y"
  shows "forces K D p (st(B_Y := y)) = forces K D p (st(B_Y := y'))"
  unfolding forces_def tree_phases_def tree_frame
  by (rule attraction_zeroes [OF assms])

lemma iteration_forget_Y:
  assumes "length y \<le> nat (npts p * 2)" and "length y' = length y"
  shows "iteration K D p i (s\<lparr>mem := (mem s)(B_Y := y)\<rparr>)
     = iteration K D p i (s\<lparr>mem := (mem s)(B_Y := y')\<rparr>)"
proof -
  have f: "forces K D p (st(B_Y := y)) = forces K D p (st(B_Y := y'))" for st
    by (rule forces_forget_Y [OF assms])
  show ?thesis
    by (simp add: iteration_def Let_def exaggeration_switch_def scalarMultiply_def
        unaryOp_at_frame f)
qed


lemma copyAsync_frame:
  "fst dst \<noteq> b \<Longrightarrow> fst src \<noteq> b \<Longrightarrow>
     copyAsync dst src len (st(b := y)) = (copyAsync dst src len st)(b := y)"
  by (auto simp: copyAsync_def cells_def fun_eq_iff)

lemma cells_frame: "fst q \<noteq> b \<Longrightarrow> cells q len (st(b := y)) = cells q len st"
  by (simp add: cells_def)

lemma length_cells: "length (cells q len st) = min len (length (st (fst q)) - snd q)"
  by (simp add: cells_def)

lemma write_two_halves:
  "length y = 2 * n \<Longrightarrow> length v1 = n \<Longrightarrow> length v2 = n \<Longrightarrow>
     write_cells n v2 (write_cells 0 v1 y) = v1 @ v2"
  by (simp add: write_cells_def)

lemma round_up32_ge: "x \<le> round_up32 x"
proof (induction x rule: round_up32.induct)
  case (1 nnodes)
  show ?case
  proof (cases "and nnodes (32 - 1) \<noteq> 0")
    case True
    with "1" have "nnodes + 1 \<le> round_up32 (nnodes + 1)"
      by simp
    moreover have "round_up32 nnodes = round_up32 (nnodes + 1)"
      using True by (subst round_up32.simps) simp
    ultimately show ?thesis
      by simp
  next
    case False
    then have "round_up32 nnodes = nnodes"
      by (subst round_up32.simps) simp
    then show ?thesis
      by simp
  qed
qed

lemma NNODES_ge: "2 * npts p \<le> NNODES D p + 1"
proof -
  have "npts p * 2 \<le> (if npts p * 2 < 1024 * blocks D then 1024 * blocks D else npts p * 2)"
    by simp
  also have "\<dots> \<le> round_up32 \<dots>"
    by (rule round_up32_ge)
  finally show ?thesis
    by (simp add: NNODES_def Let_def)
qed

lemma allocate_Y:
  "allocate D p VAL COL ROW Y = (allocate D p VAL COL ROW [])(B_Y := Y)"
proof -
  have start: "(\<lambda>b. [])(B_VAL := VAL, B_COL := map real_of_int COL,
                 B_ROW := map real_of_int ROW, B_Y := Y)
      = ((\<lambda>b. [])(B_VAL := VAL, B_COL := map real_of_int COL,
                 B_ROW := map real_of_int ROW, B_Y := []))(B_Y := Y)"
    by simp
  show ?thesis
    unfolding allocate_def Let_def start
    by (simp add: frames del: fun_upd_apply fun_upd_upd)
qed

lemma length_allocate_YY:
  "length (allocate D p VAL COL ROW Y B_YY) = nat ((NNODES D p + 1) * 2)"
  by (simp add: allocate_def Let_def device_buffer_def fill_def memset0_def)

lemma length_random_vector [simp]:
  "length (random_vector D q lo hi len seed st b) = length (st b)"
  by (simp add: random_vector_def Let_def)

lemma length_initialize_embeddings [simp]:
  "length (initialize_embeddings D p st b) = length (st b)"
  by (simp add: initialize_embeddings_def)

lemma entry_Y:
  assumes "\<not> pca_intialization p"
  shows "Barnes_Hut_entry D p VAL COL ROW Y =
     (Barnes_Hut_entry D p VAL COL ROW [])\<lparr>mem :=
        (mem (Barnes_Hut_entry D p VAL COL ROW []))(B_Y := Y)\<rparr>"
proof -
  have "initialize_embeddings D p (allocate D p VAL COL ROW Y)
      = (initialize_embeddings D p (allocate D p VAL COL ROW []))(B_Y := Y)"
    using assms
    by (subst allocate_Y) (simp add: initialize_embeddings_def random_vector_frame)
  then show ?thesis
    by (simp add: Barnes_Hut_entry_def)
qed

lemma length_loop [simp]:
  "length (mem (Barnes_Hut_loop K D p i stop s) b) = length (mem s b)"
proof (induction K D p i stop s rule: Barnes_Hut_loop.induct)
  case (1 K D p iter stop s)
  show ?case
  proof (cases "iter < stop")
    case True
    then show ?thesis
      using "1" by (simp add: loop_unfold)
  next
    case False
    then show ?thesis
      by (simp add: loop_done)
  qed
qed

lemma length_entry:
  "length (mem (Barnes_Hut_entry D p VAL COL ROW Y) B_YY) = nat ((NNODES D p + 1) * 2)"
  "length (mem (Barnes_Hut_entry D p VAL COL ROW Y) B_Y) = length Y"
  by (simp_all add: Barnes_Hut_entry_def length_allocate_YY allocate_callers)

lemma exit_overwrites:
  assumes y: "length (mem s B_Y) = nat (2 * npts p)"
    and yy: "length (mem s B_YY) = nat ((NNODES D p + 1) * 2)"
  shows "mem (Barnes_Hut_exit D p s) =
     (mem s)(B_Y := cells (base B_YY) (nat (npts p)) (mem s) @
                    cells (shift (base B_YY) (NNODES D p + 1)) (nat (npts p)) (mem s))"
proof -
  let ?n = "nat (npts p)"
  let ?v1 = "cells (base B_YY) ?n (mem s)"
  let ?v2 = "cells (shift (base B_YY) (NNODES D p + 1)) ?n (mem s)"
  have ge: "2 * npts p \<le> NNODES D p + 1"
    by (rule NNODES_ge)
  have l1: "length ?v1 = ?n"
    using yy ge by (simp add: length_cells)
  have l2: "length ?v2 = ?n"
    using yy ge by (simp add: length_cells)
  have ly: "length (mem s B_Y) = 2 * ?n"
    using y by simp
  have c1: "copyAsync (base B_Y) (base B_YY) (npts p) (mem s)
      = (mem s)(B_Y := write_cells 0 ?v1 (mem s B_Y))"
    by (simp add: copyAsync_def)
  have c2: "copyAsync (shift (base B_Y) (npts p)) (shift (base B_YY) (NNODES D p + 1)) (npts p)
        ((mem s)(B_Y := write_cells 0 ?v1 (mem s B_Y)))
      = (mem s)(B_Y := write_cells ?n ?v2 (write_cells 0 ?v1 (mem s B_Y)))"
    by (simp add: copyAsync_def cells_frame)
  show ?thesis
    by (simp add: Barnes_Hut_exit_def c1 c2 write_two_halves [OF ly l1 l2])
qed

lemma Barnes_Hut_forgets_Y:
  assumes nopca: "\<not> pca_intialization p"
    and l1: "length Y1 = nat (2 * npts p)"
    and l2: "length Y2 = nat (2 * npts p)"
  shows "Barnes_Hut K D p VAL COL ROW Y1 = Barnes_Hut K D p VAL COL ROW Y2"
proof -
  let ?ent = "Barnes_Hut_entry D p VAL COL ROW []"
  let ?upd = "\<lambda>Y. ?ent\<lparr>mem := (mem ?ent)(B_Y := Y)\<rparr>"
  have entry: "Barnes_Hut_entry D p VAL COL ROW Y = ?upd Y" for Y
    by (rule entry_Y [OF nopca])
  show ?thesis
  proof (cases "0 < max_iter p")
    case True
    have "iteration K D p 0 (?upd Y1) = iteration K D p 0 (?upd Y2)"
      by (rule iteration_forget_Y) (simp_all add: l1 l2 mult.commute)
    then show ?thesis
      using True by (simp add: Barnes_Hut_def entry [of Y1] entry [of Y2] loop_unfold [of 0])
  next
    case False
    have e: "mem (Barnes_Hut_exit D p (?upd Y)) =
        (mem ?ent)(B_Y := cells (base B_YY) (nat (npts p)) (mem ?ent) @
                    cells (shift (base B_YY) (NNODES D p + 1)) (nat (npts p)) (mem ?ent))"
      if "length Y = nat (2 * npts p)" for Y
      using exit_overwrites [of "?upd Y" p D] that length_entry(1) [of D p VAL COL ROW "[]"]
      by (simp add: cells_frame)
    have "mem (Barnes_Hut_exit D p (?upd Y1)) = mem (Barnes_Hut_exit D p (?upd Y2))"
      by (simp only: e [OF l1] e [OF l2])
    then have "Barnes_Hut_exit D p (?upd Y1) = Barnes_Hut_exit D p (?upd Y2)"
      by (simp add: Barnes_Hut_exit_def)
    then show ?thesis
      using False by (simp add: Barnes_Hut_def entry [of Y1] entry [of Y2] loop_done)
  qed
qed


subsection \<open>The entropy of the device\<close>

lemma entropy_sizes [simp]:
  "NNODES (D\<lparr>entropy := e\<rparr>) p = NNODES D p"
  "countl (D\<lparr>entropy := e\<rparr>) p = countl D p"
  "reductions_in_sortl (D\<lparr>entropy := e\<rparr>) p = reductions_in_sortl D p"
  "norms_in_childl (D\<lparr>entropy := e\<rparr>) p = norms_in_childl D p"
  by (simp_all add: NNODES_def countl_def reductions_in_sortl_def norms_in_childl_def)

lemma entropy_ptrs [simp]:
  "maxxl (D\<lparr>entropy := e\<rparr>) p = maxxl D p"
  "maxyl (D\<lparr>entropy := e\<rparr>) p = maxyl D p"
  "minxl (D\<lparr>entropy := e\<rparr>) p = minxl D p"
  "minyl (D\<lparr>entropy := e\<rparr>) p = minyl D p"
  "norm_ptr (D\<lparr>entropy := e\<rparr>) p = norm_ptr D p"
  "norm_add1_ptr (D\<lparr>entropy := e\<rparr>) p = norm_add1_ptr D p"
  "sums_ptr (D\<lparr>entropy := e\<rparr>) p = sums_ptr D p"
  by (simp_all add: maxxl_def maxyl_def minxl_def minyl_def norm_ptr_def norm_add1_ptr_def
      sums_ptr_def)

lemma entropy_device_buffer [simp]:
  "device_buffer (D\<lparr>entropy := e\<rparr>) b len st = device_buffer D b len st"
  by (simp add: device_buffer_def)

lemma entropy_allocate:
  "allocate (D\<lparr>entropy := e\<rparr>) p VAL COL ROW Y = allocate D p VAL COL ROW Y"
  by (simp add: allocate_def Let_def)

lemma entropy_initialize:
  "0 \<le> random_state p \<or> pca_intialization p \<Longrightarrow>
     initialize_embeddings (D\<lparr>entropy := e\<rparr>) p st = initialize_embeddings D p st"
  by (auto simp: initialize_embeddings_def random_vector_def)

lemma entropy_forces: "forces K (D\<lparr>entropy := e\<rparr>) p = forces K D p"
  by (rule ext) (simp add: forces_def phase_defs)

lemma entropy_iteration: "iteration K (D\<lparr>entropy := e\<rparr>) p = iteration K D p"
  by (intro ext) (simp add: iteration_def entropy_forces integration_def)

lemma entropy_loop:
  "Barnes_Hut_loop K (D\<lparr>entropy := e\<rparr>) p i stop s = Barnes_Hut_loop K D p i stop s"
proof (induction K D p i stop s rule: Barnes_Hut_loop.induct)
  case (1 K D p iter stop s)
  show ?case
  proof (cases "iter < stop")
    case True
    then show ?thesis
      using "1" by (simp add: loop_unfold entropy_iteration)
  next
    case False
    then show ?thesis
      by (simp add: loop_done)
  qed
qed

lemma entropy_unused:
  "0 \<le> random_state p \<or> pca_intialization p \<Longrightarrow>
     Barnes_Hut K (D\<lparr>entropy := e\<rparr>) p VAL COL ROW Y = Barnes_Hut K D p VAL COL ROW Y"
  by (simp add: Barnes_Hut_def entropy_loop Barnes_Hut_entry_def Barnes_Hut_exit_def
      entropy_allocate entropy_initialize)


section \<open>The integration phase\<close>

lemma take_write_cells_0: "length vs = N \<Longrightarrow> N \<le> length xs \<Longrightarrow> take N (write_cells 0 vs xs) = vs"
  by (simp add: write_cells_def)

lemma take_write_cells_after:
  "N \<le> M \<Longrightarrow> M \<le> length xs \<Longrightarrow> take N (write_cells M vs xs) = take N xs"
  by (simp add: write_cells_def)

lemma drop_write_cells_same:
  "length vs = N \<Longrightarrow> M + N \<le> length xs \<Longrightarrow> take N (drop M (write_cells M vs xs)) = vs"
  by (simp add: write_cells_def)

lemma drop_write_cells_before:
  "length vs \<le> M \<Longrightarrow> length vs \<le> length xs \<Longrightarrow> drop M (write_cells 0 vs xs) = drop M xs"
  by (simp add: write_cells_def)







lemma length_integrate_points [simp]:
  "length (integrate_points c eta mom bound z N pos attract repel gain old st) = N"
  by (simp add: integrate_points_def)











lemma iteration_mem:
  "mem (iteration K D p i s) =
     mem (integration K D p i ((exaggeration_switch p i s)\<lparr>mem :=
       forces K D p (mem (exaggeration_switch p i s))\<rparr>))"
  by (simp add: iteration_def Let_def)





lemma length_tree_phases [simp]: "length (tree_phases K D p st b) = length (st b)"
  by (simp add: phase_defs Let_def)

lemma length_repulsion [simp]: "length (repulsion K D p st b) = length (st b)"
  by (simp add: repulsion_def Let_def)


lemma launch_idle: "launch idle ptrs ints floats st = st"
  by (rule ext) (simp add: launch_def idle_def Let_def write_cells_all)





section \<open>Runs under kernels that leave the memory as it is\<close>

lemma forces_idle_YY: "forces idle_kernels D p st B_YY = st B_YY"
  by (simp add: forces_def phase_defs Let_def idle_kernels_def launch_idle memset0_other
      fill_other unaryOp_at_other)

lemma integration_idle_YY: "mem (integration idle_kernels D p i s) B_YY = mem s B_YY"
  by (simp add: integration_def Let_def idle_kernels_def launch_idle memset0_other
      unaryOp_at_other fst_sums_ptr)

lemma iteration_idle_YY: "mem (iteration idle_kernels D p i s) B_YY = mem s B_YY"
  by (simp add: iteration_mem integration_idle_YY forces_idle_YY exaggeration_switch_def
      scalarMultiply_def unaryOp_at_other)

lemma loop_idle_YY: "mem (Barnes_Hut_loop idle_kernels D p i stop s) B_YY = mem s B_YY"
proof (induction "idle_kernels" D p i stop s rule: Barnes_Hut_loop.induct)
  case (1 D p iter stop s)
  show ?case
  proof (cases "iter < stop")
    case True
    then show ?thesis
      using "1" by (simp add: loop_unfold iteration_idle_YY)
  next
    case False
    then show ?thesis
      by (simp add: loop_done)
  qed
qed

lemma embedding_idle:
  assumes "length Y = nat (2 * npts p)"
  shows "embedding (Barnes_Hut idle_kernels D p VAL COL ROW Y) =
     cells (base B_YY) (nat (npts p)) (mem (Barnes_Hut_entry D p VAL COL ROW Y)) @
     cells (shift (base B_YY) (NNODES D p + 1)) (nat (npts p))
       (mem (Barnes_Hut_entry D p VAL COL ROW Y))"
proof -
  let ?s = "Barnes_Hut_loop idle_kernels D p 0 (max_iter p) (Barnes_Hut_entry D p VAL COL ROW Y)"
  have "length (mem ?s B_Y) = nat (2 * npts p)"
    and "length (mem ?s B_YY) = nat ((NNODES D p + 1) * 2)"
    by (simp_all add: length_entry assms)
  then have "mem (Barnes_Hut_exit D p ?s) B_Y =
      cells (base B_YY) (nat (npts p)) (mem ?s) @
      cells (shift (base B_YY) (NNODES D p + 1)) (nat (npts p)) (mem ?s)"
    by (simp add: exit_overwrites)
  then show ?thesis
    by (simp add: embedding_def Barnes_Hut_def cells_def loop_idle_YY)
qed

lemma entry_YY_random:
  assumes "\<not> pca_intialization p"
  shows "mem (Barnes_Hut_entry D p VAL COL ROW Y) B_YY =
     map (rng D (if random_state p < 0 then entropy D else random_state p) (- 0.001) 0.001)
       [0 ..< nat ((NNODES D p + 1) * 2)]"
  using assms length_allocate_YY [of D p VAL COL ROW Y]
  by (simp add: Barnes_Hut_entry_def initialize_embeddings_def random_vector_def Let_def
      write_cells_all)

lemma entry_YY_pca:
  assumes "pca_intialization p" and "length Y = nat (2 * npts p)"
  shows "cells (base B_YY) (nat (npts p)) (mem (Barnes_Hut_entry D p VAL COL ROW Y)) @
     cells (shift (base B_YY) (NNODES D p + 1)) (nat (npts p))
       (mem (Barnes_Hut_entry D p VAL COL ROW Y)) = Y"
proof -
  let ?n = "nat (npts p)"
  let ?M = "nat (NNODES D p + 1)"
  let ?st = "allocate D p VAL COL ROW Y"
  have ge: "2 * npts p \<le> NNODES D p + 1"
    by (rule NNODES_ge)
  have lyy: "length (?st B_YY) = 2 * ?M"
    using length_allocate_YY [of D p VAL COL ROW Y] by simp
  have y: "?st B_Y = Y"
    by (simp add: allocate_callers)
  have ly: "length Y = 2 * ?n"
    using assms(2) by simp
  have nm: "?n \<le> ?M"
    using ge by simp
  have yy: "mem (Barnes_Hut_entry D p VAL COL ROW Y) B_YY =
      write_cells ?M (take ?n (drop ?n Y)) (write_cells 0 (take ?n Y) (?st B_YY))"
    using assms(1) y
    by (simp add: Barnes_Hut_entry_def initialize_embeddings_def copyAsync_def cells_def)
  have "take ?n (mem (Barnes_Hut_entry D p VAL COL ROW Y) B_YY) = take ?n Y"
    using ly lyy nm by (simp add: yy take_write_cells_after take_write_cells_0)
  moreover have "take ?n (drop ?M (mem (Barnes_Hut_entry D p VAL COL ROW Y) B_YY)) = drop ?n Y"
    using ly lyy nm by (simp add: yy drop_write_cells_same)
  ultimately show ?thesis
    by (simp add: cells_def)
qed

text \<open>
  The two hypotheses are needed. With a negative seed the entropy reaches the
  embedding, and with PCA initialisation the contents of \<open>Y\<close> do: under kernels that
  leave the memory as it is, the call returns the random fill, and the caller's \<open>Y\<close>,
  respectively.
\<close>

lemma embedding_of_entropy:
  assumes "\<not> pca_intialization p" and "random_state p < 0"
    and "length Y = nat (2 * npts p)" and "rng D = (\<lambda>s lo hi i. real_of_int s)"
  shows "embedding (Barnes_Hut idle_kernels D p VAL COL ROW Y) =
     replicate (nat (2 * npts p)) (real_of_int (entropy D))"
proof -
  let ?n = "nat (npts p)"
  let ?M = "nat (NNODES D p + 1)"
  have ge: "2 * npts p \<le> NNODES D p + 1"
    by (rule NNODES_ge)
  have yy: "mem (Barnes_Hut_entry D p VAL COL ROW Y) B_YY =
      replicate (2 * ?M) (real_of_int (entropy D))"
    using assms by (simp add: entry_YY_random map_replicate_const)
  have "?n \<le> ?M"
    using ge by simp
  then have "embedding (Barnes_Hut idle_kernels D p VAL COL ROW Y) =
      replicate ?n (real_of_int (entropy D)) @ replicate ?n (real_of_int (entropy D))"
    using assms(3) by (simp add: embedding_idle cells_def yy min_def)
  then show ?thesis
    by (simp add: replicate_add [symmetric] nat_mult_distrib)
qed

lemma embedding_of_Y:
  assumes "pca_intialization p" and "length Y = nat (2 * npts p)"
  shows "embedding (Barnes_Hut idle_kernels D p VAL COL ROW Y) = Y"
  using assms by (simp add: embedding_idle entry_YY_pca)

lemma entropy_reaches_embedding:
  "embedding (Barnes_Hut idle_kernels
      (plain_device\<lparr>rng := (\<lambda>s lo hi i. real_of_int s), entropy := 1\<rparr>)
      (defaults 1 2) [12] [0] [1] [0, 0, 0, 0]) = [1, 1, 1, 1] \<and>
   embedding (Barnes_Hut idle_kernels
      (plain_device\<lparr>rng := (\<lambda>s lo hi i. real_of_int s), entropy := 2\<rparr>)
      (defaults 1 2) [12] [0] [1] [0, 0, 0, 0]) = [2, 2, 2, 2]"
  by (simp add: embedding_of_entropy defaults_def numeral_eq_Suc)

lemma Y_reaches_embedding_under_pca:
  "embedding (Barnes_Hut idle_kernels plain_device ((defaults 1 2)\<lparr>pca_intialization := True\<rparr>)
      [12] [0] [1] [5, 6, 7, 8]) = [5, 6, 7, 8]"
  by (simp add: embedding_of_Y defaults_def)


section \<open>Arguments that are never read, and a sum\<close>

lemma min_grad_norm_sizes [simp]:
  "NNODES D (p\<lparr>min_grad_norm := g\<rparr>) = NNODES D p"
  "N_float (p\<lparr>min_grad_norm := g\<rparr>) = N_float p"
  "div_N (p\<lparr>min_grad_norm := g\<rparr>) = div_N p"
  "countl D (p\<lparr>min_grad_norm := g\<rparr>) = countl D p"
  "reductions_in_sortl D (p\<lparr>min_grad_norm := g\<rparr>) = reductions_in_sortl D p"
  "norms_in_childl D (p\<lparr>min_grad_norm := g\<rparr>) = norms_in_childl D p"
  by (simp_all add: NNODES_def N_float_def div_N_def countl_def reductions_in_sortl_def
      norms_in_childl_def)

lemma min_grad_norm_ptrs [simp]:
  "maxxl D (p\<lparr>min_grad_norm := g\<rparr>) = maxxl D p"
  "maxyl D (p\<lparr>min_grad_norm := g\<rparr>) = maxyl D p"
  "minxl D (p\<lparr>min_grad_norm := g\<rparr>) = minxl D p"
  "minyl D (p\<lparr>min_grad_norm := g\<rparr>) = minyl D p"
  "norm_ptr D (p\<lparr>min_grad_norm := g\<rparr>) = norm_ptr D p"
  "norm_add1_ptr D (p\<lparr>min_grad_norm := g\<rparr>) = norm_add1_ptr D p"
  "sums_ptr D (p\<lparr>min_grad_norm := g\<rparr>) = sums_ptr D p"
  by (simp_all add: maxxl_def maxyl_def minxl_def minyl_def norm_ptr_def norm_add1_ptr_def
      sums_ptr_def)





lemma sum_list_rescaled:
  "c \<noteq> 0 \<Longrightarrow> sum_list xs = c * sum_list (map (\<lambda>w. w * (1 / c)) xs)" for c :: real
  by (induction xs) (simp_all add: distrib_left)

section \<open>The claims\<close>

text \<open>
  Claim C1, where the code departs from the claim. Every launch of the integrator
  receives \<^verbatim>\<open>pre_learning_rate\<close>, in every iteration of every run: the block at
  the exaggeration horizon assigns \<^verbatim>\<open>momentum = post_momentum\<close> and never assigns
  \<^verbatim>\<open>learning_rate\<close>, and nothing else reads \<^verbatim>\<open>post_learning_rate\<close>. With the
  default arguments (horizon 250, 1000 iterations, learning rates 200 and 500, momenta
  0.5 and 0.8) the integrator of iteration 250 runs with the momentum 0.8 and the
  learning rate 200.
\<close>

theorem learning_rate_stays_pre:
  "map l_learning_rate (integrations (Barnes_Hut K D p VAL COL ROW Y)) =
     replicate (nat (max_iter p)) (pre_learning_rate p) \<and>
   l_iter (integrations (Barnes_Hut K D (defaults nnz n) VAL COL ROW Y) ! 250) = 250 \<and>
   l_momentum (integrations (Barnes_Hut K D (defaults nnz n) VAL COL ROW Y) ! 250) = 0.8 \<and>
   l_learning_rate (integrations (Barnes_Hut K D (defaults nnz n) VAL COL ROW Y) ! 250) = 200 \<and>
   post_learning_rate (defaults nnz n) = 500"
  by (simp add: Barnes_Hut_log launch_of_def comp_def defaults_def map_replicate_const)


text \<open>
  Claim C3, as amended. Let \<^verbatim>\<open>VAL\<close> hold \<^verbatim>\<open>NNZ\<close> weights and let the
  exaggeration factor be nonzero. If the horizon \<open>h\<close> is an iteration of the run,
  \<open>0 \<le> h < max_iter\<close>, then \<^verbatim>\<open>VAL\<close> is rescaled exactly once, at iteration \<open>h\<close>:
  every iteration up to \<open>h\<close> starts with the weights as given, every later one and
  the caller after the call see each weight multiplied by \<open>1 / early_exaggeration\<close>,
  and the sum of the weights before equals the factor times their sum after. If the
  horizon is not an iteration of the run (it is negative, or \<open>max_iter \<le> h\<close>),
  \<^verbatim>\<open>VAL\<close> is never rescaled and is returned as given.
\<close>

theorem rescaled_once_at_horizon:
  assumes len: "int (length VAL) = NNZ p" and nz: "early_exaggeration p \<noteq> 0"
  shows "(0 \<le> exaggeration_iter p \<and> exaggeration_iter p < max_iter p \<longrightarrow>
            rescalings (Barnes_Hut K D p VAL COL ROW Y) = [exaggeration_iter p] \<and>
            (\<forall>k \<le> exaggeration_iter p. weights (state_at K D p VAL COL ROW Y k) = VAL) \<and>
            (\<forall>k > exaggeration_iter p. weights (state_at K D p VAL COL ROW Y k) =
               map (\<lambda>w. w * (1 / early_exaggeration p)) VAL) \<and>
            weights (Barnes_Hut K D p VAL COL ROW Y) =
               map (\<lambda>w. w * (1 / early_exaggeration p)) VAL \<and>
            sum_list VAL =
               early_exaggeration p * sum_list (weights (Barnes_Hut K D p VAL COL ROW Y))) \<and>
         (\<not> (0 \<le> exaggeration_iter p \<and> exaggeration_iter p < max_iter p) \<longrightarrow>
            rescalings (Barnes_Hut K D p VAL COL ROW Y) = [] \<and>
            weights (Barnes_Hut K D p VAL COL ROW Y) = VAL)"
proof -
  let ?scaled = "map (\<lambda>w. w * (1 / early_exaggeration p)) VAL"
  have all: "map_cells 0 (nat (NNZ p)) (\<lambda>x. x * (1 / early_exaggeration p)) VAL = ?scaled"
    using len by (intro map_cells_all) simp
  have at: "weights (state_at K D p VAL COL ROW Y k) =
      (if switched p (nat k) then ?scaled else VAL)" for k
    using all by (simp add: state_at_fields)
  have before: "\<forall>k \<le> exaggeration_iter p. weights (state_at K D p VAL COL ROW Y k) = VAL"
    by (auto simp: at switched_def)
  have after: "0 \<le> exaggeration_iter p \<Longrightarrow>
      \<forall>k > exaggeration_iter p. weights (state_at K D p VAL COL ROW Y k) = ?scaled"
    by (auto simp: at switched_def)
  have sum: "sum_list VAL = early_exaggeration p * sum_list ?scaled"
    using nz by (rule sum_list_rescaled)
  show ?thesis
    using before after sum all
    by (simp add: Barnes_Hut_rescalings Barnes_Hut_weights switched_max_iter)
qed

text \<open>
  The default arguments (horizon 250 of 1000 iterations, factor 12) on the single
  weight 12: one rescaling, at iteration 250, and the weight 1 on return. With 100
  iterations the horizon is never reached.
\<close>

theorem rescaled_once_at_horizon_witness:
  "int (length [12 :: real]) = NNZ (defaults 1 2) \<and> early_exaggeration (defaults 1 2) \<noteq> 0 \<and>
   rescalings (Barnes_Hut idle_kernels plain_device (defaults 1 2) [12] [0] [1] [0, 0, 0, 0]) = [250] \<and>
   weights (Barnes_Hut idle_kernels plain_device (defaults 1 2) [12] [0] [1] [0, 0, 0, 0]) = [1] \<and>
   sum_list [12] =
     12 * sum_list (weights (Barnes_Hut idle_kernels plain_device (defaults 1 2) [12] [0] [1] [0, 0, 0, 0])) \<and>
   rescalings (Barnes_Hut idle_kernels plain_device ((defaults 1 2)\<lparr>max_iter := 100\<rparr>) [12] [0] [1] [0, 0, 0, 0]) = []"
  using rescaled_once_at_horizon [of "[12]" "defaults 1 2" idle_kernels plain_device "[0]" "[1]" "[0, 0, 0, 0]"]
    rescaled_once_at_horizon [of "[12]" "(defaults 1 2)\<lparr>max_iter := 100\<rparr>" idle_kernels plain_device "[0]" "[1]" "[0, 0, 0, 0]"]
  by (simp add: defaults_def)

text \<open>
  Claim C3 as stated (\<^verbatim>\<open>VAL\<close> is rescaled exactly once across a full run) fails for
  a run that ends before its horizon: 100 iterations with the default horizon 250
  rescale nothing, the weight 12 comes back as 12, and 12 is not 12 times 12.
\<close>

theorem rescaled_exactly_once_counterexample:
  "rescalings (Barnes_Hut idle_kernels plain_device ((defaults 1 2)\<lparr>max_iter := 100\<rparr>)
      [12] [0] [1] [0, 0, 0, 0]) = [] \<and>
   weights (Barnes_Hut idle_kernels plain_device ((defaults 1 2)\<lparr>max_iter := 100\<rparr>)
      [12] [0] [1] [0, 0, 0, 0]) = [12] \<and>
   sum_list [12] \<noteq> early_exaggeration ((defaults 1 2)\<lparr>max_iter := 100\<rparr>) *
     sum_list (weights (Barnes_Hut idle_kernels plain_device ((defaults 1 2)\<lparr>max_iter := 100\<rparr>)
      [12] [0] [1] [0, 0, 0, 0]))"
  by (simp add: Barnes_Hut_rescalings Barnes_Hut_weights switched_def defaults_def)






text \<open>
  Claim C7. \<^verbatim>\<open>pcaFit\<close> aborts with the message of the first failed check when
  \<open>n_cols \<le> 1\<close>, when \<open>n_rows \<le> 1\<close> or when \<open>n_components \<le> 0\<close>, before anything
  is computed. On every other input it runs, and the parameters it runs with are those
  given except for one change: \<open>n_components\<close> is the smaller of the given value and
  \<open>n_cols\<close>. So a call asking for more components than columns is the call asking
  for \<open>n_cols\<close> components, and \<open>n_rows\<close> and \<open>n_cols\<close> are never changed.
\<close>

theorem pcaFit_checks:
  "(n_cols prms \<le> 1 \<longrightarrow>
      pcaFit P inp prms = Inl ''Parameter n_cols: number of columns cannot be less than two'') \<and>
   (1 < n_cols prms \<and> n_rows prms \<le> 1 \<longrightarrow>
      pcaFit P inp prms = Inl ''Parameter n_rows: number of rows cannot be less than two'') \<and>
   (1 < n_cols prms \<and> 1 < n_rows prms \<and> n_components prms \<le> 0 \<longrightarrow>
      pcaFit P inp prms =
        Inl ''Parameter n_components: number of components cannot be less than one'') \<and>
   (1 < n_cols prms \<and> 1 < n_rows prms \<and> 0 < n_components prms \<longrightarrow>
      (\<exists>r. pcaFit P inp prms = Inr r \<and>
           prms_used r = prms\<lparr>n_components := min (n_components prms) (n_cols prms)\<rparr>) \<and>
      pcaFit P inp prms =
        pcaFit P inp (prms\<lparr>n_components := min (n_components prms) (n_cols prms)\<rparr>))"
  by (auto simp: pcaFit_def Let_def min_def split: prod.splits)

text \<open>One input for each check, and 5 components of 2 columns clamped to 2.\<close>

theorem pcaFit_checks_witness:
  "pcaFit idle_prims [] \<lparr>n_rows = 3, n_cols = 1, n_components = 2\<rparr>
     = Inl ''Parameter n_cols: number of columns cannot be less than two'' \<and>
   pcaFit idle_prims [] \<lparr>n_rows = 1, n_cols = 2, n_components = 2\<rparr>
     = Inl ''Parameter n_rows: number of rows cannot be less than two'' \<and>
   pcaFit idle_prims [] \<lparr>n_rows = 3, n_cols = 2, n_components = 0\<rparr>
     = Inl ''Parameter n_components: number of components cannot be less than one'' \<and>
   (\<exists>r. pcaFit idle_prims [] \<lparr>n_rows = 3, n_cols = 2, n_components = 5\<rparr> = Inr r \<and>
        prms_used r = \<lparr>n_rows = 3, n_cols = 2, n_components = 2\<rparr>)"
  using pcaFit_checks [of "\<lparr>n_rows = 3, n_cols = 1, n_components = 2\<rparr>" idle_prims "[]"]
    pcaFit_checks [of "\<lparr>n_rows = 1, n_cols = 2, n_components = 2\<rparr>" idle_prims "[]"]
    pcaFit_checks [of "\<lparr>n_rows = 3, n_cols = 2, n_components = 0\<rparr>" idle_prims "[]"]
    pcaFit_checks [of "\<lparr>n_rows = 3, n_cols = 2, n_components = 5\<rparr>" idle_prims "[]"]
  by simp metis



text \<open>
  Claim C9. Without PCA initialisation and with a seed that is not negative, two runs
  that differ in the contents of the caller's \<^verbatim>\<open>Y\<close> (of \<open>2 * n\<close> cells) end in the
  same state: \<^verbatim>\<open>Y\<close> is not read before the attraction phase of the first iteration
  sets it to zero (the attraction phase gives the same memory for any two contents of
  \<^verbatim>\<open>Y\<close>), and on exit it is overwritten in full, its first \<open>n\<close> cells with the
  \<open>x\<close> coordinates and the next \<open>n\<close> with the \<open>y\<close> coordinates of \<^verbatim>\<open>YY\<close>.
\<close>

theorem embedding_ignores_Y:
  assumes nopca: "\<not> pca_intialization p"
    and seed: "0 \<le> random_state p"
    and l1: "length Y1 = nat (2 * npts p)"
    and l2: "length Y2 = nat (2 * npts p)"
  shows "Barnes_Hut K (D\<lparr>entropy := e1\<rparr>) p VAL COL ROW Y1 =
           Barnes_Hut K (D\<lparr>entropy := e2\<rparr>) p VAL COL ROW Y2 \<and>
         attraction K D p (st(B_Y := Y1)) = attraction K D p (st(B_Y := Y2)) \<and>
         embedding (Barnes_Hut K D p VAL COL ROW Y1) =
           cells (base B_YY) (nat (npts p)) (mem (state_at K D p VAL COL ROW Y1 (max_iter p))) @
           cells (shift (base B_YY) (NNODES D p + 1)) (nat (npts p))
             (mem (state_at K D p VAL COL ROW Y1 (max_iter p)))"
proof -
  have "Barnes_Hut K (D\<lparr>entropy := e1\<rparr>) p VAL COL ROW Y1 = Barnes_Hut K D p VAL COL ROW Y1"
    using seed by (simp add: entropy_unused)
  also have "\<dots> = Barnes_Hut K D p VAL COL ROW Y2"
    by (rule Barnes_Hut_forgets_Y [OF nopca l1 l2])
  also have "\<dots> = Barnes_Hut K (D\<lparr>entropy := e2\<rparr>) p VAL COL ROW Y2"
    using seed by (simp add: entropy_unused)
  finally have same: "Barnes_Hut K (D\<lparr>entropy := e1\<rparr>) p VAL COL ROW Y1 =
      Barnes_Hut K (D\<lparr>entropy := e2\<rparr>) p VAL COL ROW Y2" .
  have zero: "attraction K D p (st(B_Y := Y1)) = attraction K D p (st(B_Y := Y2))"
    by (rule attraction_zeroes) (simp_all add: l1 l2 mult.commute)
  let ?s = "state_at K D p VAL COL ROW Y1 (max_iter p)"
  have "length (mem ?s B_Y) = nat (2 * npts p)"
    and "length (mem ?s B_YY) = nat ((NNODES D p + 1) * 2)"
    by (simp_all add: state_at_def length_entry l1)
  then have "mem (Barnes_Hut_exit D p ?s) B_Y =
      cells (base B_YY) (nat (npts p)) (mem ?s) @
      cells (shift (base B_YY) (NNODES D p + 1)) (nat (npts p)) (mem ?s)"
    by (simp add: exit_overwrites)
  then have out: "embedding (Barnes_Hut K D p VAL COL ROW Y1) =
      cells (base B_YY) (nat (npts p)) (mem ?s) @
      cells (shift (base B_YY) (NNODES D p + 1)) (nat (npts p)) (mem ?s)"
    by (simp add: embedding_def Barnes_Hut_state_at)
  show ?thesis
    using same zero out by simp
qed

text \<open>Two points, the buffer holding zeros in one run and 5, 6, 7, 8 in the other.\<close>

theorem embedding_ignores_Y_witness:
  "\<not> pca_intialization ((defaults 1 2)\<lparr>random_state := 7\<rparr>) \<and>
   0 \<le> random_state ((defaults 1 2)\<lparr>random_state := 7\<rparr>) \<and>
   length [0, 0, 0, 0 :: real] = nat (2 * npts ((defaults 1 2)\<lparr>random_state := 7\<rparr>)) \<and>
   length [5, 6, 7, 8 :: real] = nat (2 * npts ((defaults 1 2)\<lparr>random_state := 7\<rparr>)) \<and>
   Barnes_Hut idle_kernels (plain_device\<lparr>entropy := 1\<rparr>)
      ((defaults 1 2)\<lparr>random_state := 7\<rparr>) [12] [0] [1] [0, 0, 0, 0] =
   Barnes_Hut idle_kernels (plain_device\<lparr>entropy := 2\<rparr>)
      ((defaults 1 2)\<lparr>random_state := 7\<rparr>) [12] [0] [1] [5, 6, 7, 8]"
  using embedding_ignores_Y [where p = "(defaults 1 2)\<lparr>random_state := 7\<rparr>"
      and ?Y1.0 = "[0, 0, 0, 0]" and ?Y2.0 = "[5, 6, 7, 8]" and K = idle_kernels
      and D = plain_device and ?e1.0 = 1 and ?e2.0 = 2 and VAL = "[12]" and COL = "[0]"
      and ROW = "[1]"]
  by (simp add: defaults_def)

text \<open>
  Claim C10, as amended. Let the solver succeed with its eigenvalues in ascending order
  in the \<open>p\<close> cells of \<open>W\<close>, and let \<open>k \<le> p\<close>. Then \<^verbatim>\<open>eigh\<close> returns, with
  \<open>V\<close> column-reversed. Without \<^verbatim>\<open>singular_values\<close>, \<open>W\<close> is the reversed
  solver output and is in descending order. With \<^verbatim>\<open>singular_values\<close>, the first
  \<open>k\<close> entries of \<open>W\<close> are the reversed eigenvalues with each positive one replaced
  by its square root and each other one by zero, so they are nonnegative and in
  descending order among themselves; the remaining \<open>p - k\<close> entries are the reversed
  eigenvalues unchanged, in descending order among themselves; and the whole of \<open>W\<close>
  is in descending order when \<open>k = p\<close>.
\<close>

theorem eigh_order:
  assumes solved: "syevd p V W = Some (W1, V1)"
    and asc: "sorted W1"
    and len: "length W1 = nat p"
    and kp: "k \<le> p"
  shows "\<exists>W'. eigh syevd W V p k singular_values = Some (W', colReverse V1 (nat p) (nat p)) \<and>
      (\<not> singular_values \<longrightarrow> W' = rev W1 \<and> descending W') \<and>
      (singular_values \<longrightarrow>
         take (nat k) W' = map (\<lambda>x. if x > 0 then sqrt x else 0) (take (nat k) (rev W1)) \<and>
         drop (nat k) W' = drop (nat k) (rev W1) \<and>
         (\<forall>x \<in> set (take (nat k) W'). 0 \<le> x) \<and>
         descending (take (nat k) W') \<and> descending (drop (nat k) W') \<and>
         (k = p \<longrightarrow> descending W'))"
proof (cases singular_values)
  case False
  then show ?thesis
    using solved asc len by (simp add: eigh_def colReverse_row descending_rev del: One_nat_def)
next
  case True
  let ?f = "\<lambda>x::real. if x > 0 then sqrt x else 0"
  let ?R = "rev W1"
  let ?W' = "map ?f (take (nat k) ?R) @ drop (nat k) ?R"
  have klen: "nat k \<le> length ?R" using kp len by simp
  have res: "eigh syevd W V p k singular_values = Some (?W', colReverse V1 (nat p) (nat p))"
    using solved len True
    by (simp add: eigh_def Let_def colReverse_row unaryOp_def map_cells_def del: One_nat_def)
  have desc: "descending ?R" using asc by (rule descending_rev)
  have t: "take (nat k) ?W' = map ?f (take (nat k) ?R)"
    using klen by simp
  have d: "drop (nat k) ?W' = drop (nat k) ?R"
    using klen by simp
  have nonneg: "\<forall>x \<in> set (take (nat k) ?W'). 0 \<le> x"
    unfolding t by auto
  have dt: "descending (take (nat k) ?W')"
    unfolding t by (rule descending_map_mono [OF descending_take [OF desc] mono_root_or_zero])
  have dd: "descending (drop (nat k) ?W')"
    unfolding d by (rule descending_drop [OF desc])
  have full: "k = p \<longrightarrow> descending ?W'"
  proof
    assume "k = p"
    then have "?W' = take (nat k) ?W'" using len by simp
    then show "descending ?W'" using dt by metis
  qed
  show ?thesis
    using res t d nonneg dt dd full True by blast
qed

text \<open>
  The matrix with diagonal 4, 3: the solver returns the eigenvalues 3, 4; with
  \<open>k = p = 2\<close> the result is in descending order and nonnegative.
\<close>

theorem eigh_order_witness:
  "sorted [3, 4 :: real] \<and> length [3, 4 :: real] = nat 2 \<and>
   (\<exists>W'. eigh (\<lambda>p V W. Some ([3, 4], [0, 1, 1, 0])) [0, 0] [4, 0, 0, 3] 2 2 True
            = Some (W', colReverse [0, 1, 1, 0] (nat 2) (nat 2)) \<and>
          take (nat 2) W' = map (\<lambda>x. if x > 0 then sqrt x else 0) (take (nat 2) (rev [3, 4])) \<and>
          (\<forall>x \<in> set (take (nat 2) W'). 0 \<le> x) \<and>
          descending W')"
proof -
  have a: "(\<lambda>p V W. Some ([3 :: real, 4], [0 :: real, 1, 1, 0])) (2 :: int) [4 :: real, 0, 0, 3] [0 :: real, 0]
      = Some ([3, 4], [0, 1, 1, 0])"
    by simp
  have b: "sorted [3, 4 :: real]" by simp
  have c: "length [3, 4 :: real] = nat 2" by simp
  have d: "(2 :: int) \<le> 2" by simp
  from eigh_order [of "\<lambda>p V W. Some ([3, 4], [0, 1, 1, 0])" 2 "[4, 0, 0, 3]" "[0, 0]"
      "[3, 4]" "[0, 1, 1, 0]" 2 True, OF a b c d]
  show ?thesis
    using b c by blast
qed

text \<open>
  Claim C10 as stated (after \<^verbatim>\<open>eigh\<close> returns, \<open>W\<close> is in descending order) fails
  when singular values are asked for fewer components than there are eigenvalues: for
  the eigenvalues 3, 4 and \<open>k = 1\<close> only the first entry of the reversed array 4, 3
  is replaced by its root, and \<open>W\<close> is returned as 2, 3.
\<close>

theorem eigh_descending_counterexample:
  "sorted [3, 4 :: real] \<and>
   eigh (\<lambda>p V W. Some ([3, 4], [0, 1, 1, 0])) [0, 0] [4, 0, 0, 3] 2 1 True
     = Some ([2, 3], [1, 0, 0, 1]) \<and>
   \<not> descending [2, 3]"
proof -
  have v: "colReverse [0, 1, 1, 0] 2 2 = [1, 0, 0, 1]"
    by code_simp
  have w: "colReverse [3, 4] 1 2 = [4, 3]"
    by (simp add: colReverse_row del: One_nat_def)
  show ?thesis
    by (simp add: eigh_def Let_def v w unaryOp_def map_cells_def descending_def
        del: One_nat_def)
qed

end
